theory Spec2Isabelle
  imports
    Complex_Main
    "HOL-Library.AList"
    "HOL-Library.Sublist"
begin

section \<open>The file system\<close>

text \<open>
  The service of \<^verbatim>\<open>voice_server.py\<close> works on files: model checkpoints,
  uploaded voice samples, speaker embeddings and generated audio. The file system is
  a tree. A directory lists its entries in the order in which \<^verbatim>\<open>os.listdir\<close>
  and \<^verbatim>\<open>os.walk\<close> report them. A path is the list of the names that lead from the
  root of the tree to an entry; the relative names of the program
  (\<^verbatim>\<open>"voices"\<close>, \<^verbatim>\<open>"checkpoints"\<close>, \<^verbatim>\<open>f"{checkpoint_dir}/converter/config.json"\<close>,
  \<^verbatim>\<open>os.path.join(checkpoint_dir, item)\<close>) are read from the working directory, which
  is the root of the tree.
\<close>

type_synonym path = "string list"

datatype node = File string | Dir "(string \<times> node) list"

type_synonym entries = "(string \<times> node) list"

fun lookup :: "path \<Rightarrow> node \<Rightarrow> node option" where
  "lookup [] n = Some n"
| "lookup (c # cs) (File _) = None"
| "lookup (c # cs) (Dir es) =
     (case map_of es c of None \<Rightarrow> None | Some m \<Rightarrow> lookup cs m)"

text \<open>\<^verbatim>\<open>os.path.exists\<close>, \<^verbatim>\<open>os.path.isdir\<close> and \<^verbatim>\<open>os.path.isfile\<close>.\<close>

definition path_exists :: "node \<Rightarrow> path \<Rightarrow> bool" where
  "path_exists t p = (lookup p t \<noteq> None)"

definition isdir :: "node \<Rightarrow> path \<Rightarrow> bool" where
  "isdir t p = (case lookup p t of Some (Dir _) \<Rightarrow> True | _ \<Rightarrow> False)"

definition isfile :: "node \<Rightarrow> path \<Rightarrow> bool" where
  "isfile t p = (case lookup p t of Some (File _) \<Rightarrow> True | _ \<Rightarrow> False)"

text \<open>
  \<open>modify p f t\<close> rewrites the entry list of the directory at \<open>p\<close> with \<open>f\<close>. It
  is \<open>None\<close> when \<open>p\<close> is not a directory of \<open>t\<close> or when \<open>f\<close> refuses.
\<close>

fun modify :: "path \<Rightarrow> (entries \<Rightarrow> entries option) \<Rightarrow> node \<Rightarrow> node option" where
  "modify p f (File _) = None"
| "modify [] f (Dir es) = map_option Dir (f es)"
| "modify (c # cs) f (Dir es) =
     (case map_of es c of
        None \<Rightarrow> None
      | Some m \<Rightarrow>
          (case modify cs f m of
             None \<Rightarrow> None
           | Some m' \<Rightarrow> Some (Dir (AList.update c m' es))))"

text \<open>
  \<open>create\<close> binds a name that is not bound yet, in an existing directory
  (\<^verbatim>\<open>O_CREAT | O_EXCL\<close>, \<^verbatim>\<open>mkdir\<close>); \<open>write_file\<close> opens a file for writing,
  creating or truncating it (\<^verbatim>\<open>open(p, "wb")\<close>); \<open>unbind\<close> removes a name with
  everything below it.
\<close>

definition create :: "path \<Rightarrow> node \<Rightarrow> node \<Rightarrow> node option" where
  "create p new t =
     (if p = [] then None
      else modify (butlast p)
             (\<lambda>es. if map_of es (last p) = None then Some (es @ [(last p, new)]) else None) t)"

definition write_file :: "path \<Rightarrow> string \<Rightarrow> node \<Rightarrow> node option" where
  "write_file p content t =
     (if p = [] then None
      else modify (butlast p)
             (\<lambda>es. case map_of es (last p) of
                      Some (Dir _) \<Rightarrow> None
                    | _ \<Rightarrow> Some (AList.update (last p) (File content) es)) t)"

definition unbind :: "path \<Rightarrow> node \<Rightarrow> node option" where
  "unbind p t =
     (if p = [] then None
      else modify (butlast p)
             (\<lambda>es. if map_of es (last p) = None then None
                    else Some (AList.delete (last p) es)) t)"

text \<open>
  \<^verbatim>\<open>os.makedirs(p, exist_ok=True)\<close>: every missing directory on the way to \<open>p\<close>
  is created; a file on the way (or at \<open>p\<close>) makes it fail.
\<close>

fun makedirs :: "path \<Rightarrow> node \<Rightarrow> node option" where
  "makedirs p (File _) = None"
| "makedirs [] (Dir es) = Some (Dir es)"
| "makedirs (c # cs) (Dir es) =
     (case makedirs cs (case map_of es c of None \<Rightarrow> Dir [] | Some m \<Rightarrow> m) of
        None \<Rightarrow> None
      | Some m' \<Rightarrow> Some (Dir (AList.update c m' es)))"

text \<open>
  \<^verbatim>\<open>os.walk(top)\<close>, top-down: a directory is reported before its subdirectories,
  which follow in listing order; files are not reported as roots.
\<close>

fun walk :: "path \<Rightarrow> node \<Rightarrow> path list" where
  "walk p (File _) = []"
| "walk p (Dir es) = p # concat (map (\<lambda>e. walk (p @ [fst e]) (snd e)) es)"

definition os_walk :: "node \<Rightarrow> path \<Rightarrow> path list" where
  "os_walk t start =
     (case lookup start t of Some (Dir es) \<Rightarrow> walk start (Dir es) | _ \<Rightarrow> [])"

definition listdir :: "node \<Rightarrow> path \<Rightarrow> string list" where
  "listdir t p = (case lookup p t of Some (Dir es) \<Rightarrow> map fst es | _ \<Rightarrow> [])"

text \<open>
  \<^verbatim>\<open>os.rename\<close>: the source must exist; a file replaces a file, a directory
  replaces an empty directory, and nothing moves below itself.
\<close>

definition rename :: "path \<Rightarrow> path \<Rightarrow> node \<Rightarrow> node option" where
  "rename src dst t =
     (case lookup src t of
        None \<Rightarrow> None
      | Some n \<Rightarrow>
          (if src = [] \<or> dst = [] then None
           else if src = dst then Some t
           else if prefix src dst then None
           else (case (n, lookup dst t) of
                   (File _, Some (Dir _)) \<Rightarrow> None
                 | (Dir _, Some (File _)) \<Rightarrow> None
                 | (Dir _, Some (Dir (e # es))) \<Rightarrow> None
                 | _ \<Rightarrow>
                     (case unbind src t of
                        None \<Rightarrow> None
                      | Some t1 \<Rightarrow>
                          modify (butlast dst)
                            (\<lambda>es. Some (AList.update (last dst) n es)) t1))))"

section \<open>State, errors and the external world\<close>

text \<open>
  Exceptions are values. \<open>OSError\<close> stands for the subclasses that file operations
  raise (\<^verbatim>\<open>FileNotFoundError\<close>, \<^verbatim>\<open>FileExistsError\<close>, \<^verbatim>\<open>NotADirectoryError\<close>,
  \<^verbatim>\<open>IsADirectoryError\<close>), \<open>ShutilError\<close> for \<^verbatim>\<open>shutil.Error\<close>, \<open>LibraryError\<close> for
  whatever the model library raises and \<open>DatabaseError\<close> for \<^verbatim>\<open>sqlite3.Error\<close>.
  The argument stands for the text that \<^verbatim>\<open>str(e)\<close> gives; for an error of the
  operating system it is the name of the operation that failed.
\<close>

datatype error =
    OSError string
  | URLError string
  | BadZipFile string
  | RuntimeError string
  | ShutilError string
  | LibraryError string
  | DatabaseError string

fun str :: "error \<Rightarrow> string" where
  "str (OSError m) = m"
| "str (URLError m) = m"
| "str (BadZipFile m) = m"
| "str (RuntimeError m) = m"
| "str (ShutilError m) = m"
| "str (LibraryError m) = m"
| "str (DatabaseError m) = m"

text \<open>
  The model library is a black box. A speaker embedding is known by where it came
  from; every call into the library, and every download, is recorded in a trace.
\<close>

datatype embedding = Extracted path | Loaded path

datatype event =
    Urlretrieve string path
  | Get_se path
  | Torch_save embedding path
  | Torch_load path
  | BaseSpeakerTTS path
  | Load_ckpt path
  | Tts string path string real
  | Convert path embedding embedding path

text \<open>The two tables of \<^verbatim>\<open>init_database\<close>.\<close>

record voice_row =
  vm_id :: string
  vm_name :: string
  vm_description :: "string option"
  vm_file_path :: path
  vm_se_file_path :: path
  vm_created_at :: string

record audio_row =
  ga_id :: string
  ga_voice_id :: string
  ga_text :: string
  ga_file_path :: path
  ga_accent :: string
  ga_speed :: real
  ga_created_at :: string

record state =
  fs :: node
  trace :: "event list"
  voice_models :: "voice_row list"
  generated_audio :: "audio_row list"

text \<open>
  A statement of the program takes the state and either returns a value or raises,
  in both cases with the state it leaves behind.
\<close>

datatype 'a result = Return 'a state | Raise error state

fun returns_normally :: "'a result \<Rightarrow> bool" where
  "returns_normally (Return _ _) = True"
| "returns_normally (Raise _ _) = False"

fun state_of :: "'a result \<Rightarrow> state" where
  "state_of (Return _ st) = st"
| "state_of (Raise _ st) = st"

definition seq :: "(state \<Rightarrow> 'a result) \<Rightarrow> ('a \<Rightarrow> state \<Rightarrow> 'b result) \<Rightarrow> state \<Rightarrow> 'b result" where
  "seq m f st = (case m st of Raise e st' \<Rightarrow> Raise e st' | Return x st' \<Rightarrow> f x st')"

text \<open>\<^verbatim>\<open>try: m finally: h\<close>; an exception of \<open>h\<close> replaces the one of \<open>m\<close>.\<close>

definition try_finally :: "(state \<Rightarrow> 'a result) \<Rightarrow> (state \<Rightarrow> unit result) \<Rightarrow> state \<Rightarrow> 'a result" where
  "try_finally m h st =
     (case m st of
        Return x st' \<Rightarrow>
          (case h st' of Return _ st'' \<Rightarrow> Return x st'' | Raise e st'' \<Rightarrow> Raise e st'')
      | Raise e st' \<Rightarrow>
          (case h st' of Return _ st'' \<Rightarrow> Raise e st'' | Raise e' st'' \<Rightarrow> Raise e' st''))"

definition os_call :: "error \<Rightarrow> (node \<Rightarrow> node option) \<Rightarrow> state \<Rightarrow> unit result" where
  "os_call e f st =
     (case f (fs st) of None \<Rightarrow> Raise e st | Some t \<Rightarrow> Return () (st\<lparr>fs := t\<rparr>))"

definition log :: "event \<Rightarrow> state \<Rightarrow> unit result" where
  "log ev st = Return () (st\<lparr>trace := trace st @ [ev]\<rparr>)"

text \<open>
  \<^verbatim>\<open>os.unlink\<close> and \<^verbatim>\<open>os.remove\<close> remove a file and refuse a directory;
  \<^verbatim>\<open>shutil.rmtree\<close> as \<^verbatim>\<open>TemporaryDirectory\<close> uses it on exit removes a tree and
  tolerates its absence.
\<close>

definition unlink :: "path \<Rightarrow> node \<Rightarrow> node option" where
  "unlink p t = (if isfile t p then unbind p t else None)"

definition rmtree :: "path \<Rightarrow> node \<Rightarrow> node option" where
  "rmtree p t = (case unbind p t of None \<Rightarrow> Some t | Some t' \<Rightarrow> Some t')"

text \<open>
  \<^verbatim>\<open>shutil.move(src, dst)\<close>: into \<open>dst\<close> when \<open>dst\<close> is a directory, where the name
  must be free; onto \<open>dst\<close> otherwise. Where \<^verbatim>\<open>os.rename\<close> fails for a reason that
  the tree shows, the copy that \<^verbatim>\<open>shutil.move\<close> tries next fails as well.
\<close>

definition shutil_move :: "path \<Rightarrow> path \<Rightarrow> state \<Rightarrow> unit result" where
  "shutil_move src dst st =
     (if src = [] then Raise (OSError ''No such file or directory'') st
      else if isdir (fs st) dst then
        (if src = dst then os_call (OSError ''rename'') (rename src dst) st
         else
           (let real_dst = dst @ [last src] in
            if path_exists (fs st) real_dst
            then Raise (ShutilError ''Destination path already exists'') st
            else os_call (OSError ''rename'') (rename src real_dst) st))
      else os_call (OSError ''rename'') (rename src dst) st)"

text \<open>
  What a download meets: the server is unreachable, or it serves bytes, which unpack
  to a tree when they are a zip archive. \<^verbatim>\<open>tempfile\<close> chooses names that are not in
  use; the names it chooses are part of the environment.
\<close>

datatype download = Unreachable string | Payload string "entries option"

record fetch_env =
  served :: download
  tmp_zip_path :: path
  tmp_dir :: path

definition urlretrieve :: "fetch_env \<Rightarrow> string \<Rightarrow> path \<Rightarrow> state \<Rightarrow> unit result" where
  "urlretrieve env url p =
     seq (log (Urlretrieve url p))
       (\<lambda>_. case served env of
               Unreachable m \<Rightarrow> Raise (URLError m)
             | Payload bytes _ \<Rightarrow> os_call (OSError ''open'') (write_file p bytes))"

definition ZipFile :: "fetch_env \<Rightarrow> state \<Rightarrow> entries result" where
  "ZipFile env st =
     (case served env of
        Payload _ (Some members) \<Rightarrow> Return members st
      | _ \<Rightarrow> Raise (BadZipFile ''File is not a zip file'') st)"

text \<open>
  \<^verbatim>\<open>zf.extractall(tmp_dir)\<close> into the directory that \<^verbatim>\<open>TemporaryDirectory\<close> has just
  made: the directory then holds the tree of the archive.
\<close>

definition extractall :: "entries \<Rightarrow> path \<Rightarrow> node \<Rightarrow> node option" where
  "extractall members p t = modify p (\<lambda>_. Some members) t"

section \<open>Checkpoint bootstrap\<close>

text \<open>
  The loop of \<^verbatim>\<open>ensure_checkpoints\<close> that moves the entries of the candidate root
  into the target directory (lines 80 to 87; \<^verbatim>\<open>ensure_base_checkpoints_v1\<close> has the
  same loop in lines 121 to 128). The listing is taken once, before the loop.
\<close>

fun merge_items :: "path \<Rightarrow> path \<Rightarrow> string list \<Rightarrow> state \<Rightarrow> unit result" where
  "merge_items candidate_root target [] st = Return () st"
| "merge_items candidate_root target (item # items) st =
     (let src = candidate_root @ [item]; dst = target @ [item] in
      case (if isdir (fs st) src
            then (if \<not> path_exists (fs st) dst then shutil_move src dst st
                  else Return () st)
            else shutil_move src dst st) of
        Raise e st' \<Rightarrow> Raise e st'
      | Return _ st' \<Rightarrow> merge_items candidate_root target items st')"

text \<open>
  The scan for the candidate root (lines 69 to 76): the first directory of the walk
  below which both marker files exist.
\<close>

definition find_candidate_root :: "path \<Rightarrow> path \<Rightarrow> node \<Rightarrow> path \<Rightarrow> path option" where
  "find_candidate_root marker1 marker2 t tmp =
     find (\<lambda>root. path_exists t (root @ marker1) \<and> path_exists t (root @ marker2))
       (os_walk t tmp)"

text \<open>
  Lines 56 to 90 of \<^verbatim>\<open>ensure_checkpoints\<close> and lines 101 to 131 of
  \<^verbatim>\<open>ensure_base_checkpoints_v1\<close> are the same statements up to the target directory,
  the URL, the two marker files and the message of the \<^verbatim>\<open>RuntimeError\<close>.
\<close>

definition download_and_merge ::
  "path \<Rightarrow> string \<Rightarrow> path \<Rightarrow> path \<Rightarrow> string \<Rightarrow> fetch_env \<Rightarrow> state \<Rightarrow> unit result" where
  "download_and_merge target url marker1 marker2 msg env =
     seq (os_call (OSError ''makedirs'') (makedirs target))
       (\<lambda>_. seq (os_call (OSError ''mkstemp'') (create (tmp_zip_path env) (File [])))
       (\<lambda>_. try_finally
               (seq (urlretrieve env url (tmp_zip_path env))
                 (\<lambda>_. seq (ZipFile env)
                 (\<lambda>members. seq (os_call (OSError ''mkdtemp'') (create (tmp_dir env) (Dir [])))
                 (\<lambda>_. try_finally
                         (seq (os_call (OSError ''extractall'') (extractall members (tmp_dir env)))
                           (\<lambda>_ st.
                              case find_candidate_root marker1 marker2 (fs st) (tmp_dir env) of
                                None \<Rightarrow> Raise (RuntimeError msg) st
                              | Some candidate_root \<Rightarrow>
                                  merge_items candidate_root target
                                    (listdir (fs st) candidate_root) st))
                         (os_call (OSError ''rmtree'') (rmtree (tmp_dir env)))))))
               (\<lambda>st. if path_exists (fs st) (tmp_zip_path env)
                      then os_call (OSError ''unlink'') (unlink (tmp_zip_path env)) st
                      else Return () st)))"

definition required_paths :: "path \<Rightarrow> path list" where
  "required_paths checkpoint_dir =
     [checkpoint_dir @ [''converter'', ''config.json''],
      checkpoint_dir @ [''converter'', ''checkpoint.pth''],
      checkpoint_dir @ [''base_speakers'', ''ses'', ''en-newest.pth'']]"

definition download_url :: string where
  "download_url =
     ''https://myshell-public-repo-host.s3.amazonaws.com/openvoice/checkpoints_v2_0417.zip''"

definition ensure_checkpoints :: "path \<Rightarrow> fetch_env \<Rightarrow> state \<Rightarrow> unit result" where
  "ensure_checkpoints checkpoint_dir env st =
     (if list_all (path_exists (fs st)) (required_paths checkpoint_dir) then Return () st
      else download_and_merge checkpoint_dir download_url
             [''converter'', ''config.json''] [''converter'', ''checkpoint.pth'']
             ''Downloaded checkpoints archive does not contain expected structure'' env st)"

definition base_dir :: path where
  "base_dir = [''checkpoints'']"

definition req_files :: "path list" where
  "req_files =
     [base_dir @ [''base_speakers'', ''EN'', ''config.json''],
      base_dir @ [''base_speakers'', ''EN'', ''checkpoint.pth'']]"

definition url_v1 :: string where
  "url_v1 = ''https://myshell-public-repo-host.s3.amazonaws.com/openvoice/checkpoints_1226.zip''"

definition ensure_base_checkpoints_v1 :: "fetch_env \<Rightarrow> state \<Rightarrow> path result" where
  "ensure_base_checkpoints_v1 env st =
     (if list_all (path_exists (fs st)) req_files then Return base_dir st
      else seq (download_and_merge base_dir url_v1
                  [''base_speakers'', ''EN'', ''config.json'']
                  [''base_speakers'', ''EN'', ''checkpoint.pth'']
                  ''Downloaded V1 checkpoints archive missing EN base TTS'' env)
             (\<lambda>_. Return base_dir) st)"
section \<open>The request handlers\<close>

definition VOICES_DIR :: path where
  "VOICES_DIR = [''voices'']"

definition AUDIO_DIR :: path where
  "AUDIO_DIR = [''audio_files'']"

definition ACCENT_TO_SES_FILE :: "(string \<times> string) list" where
  "ACCENT_TO_SES_FILE =
     [(''en-au'', ''en-au.pth''),
      (''en-br'', ''en-br.pth''),
      (''en-default'', ''en-default.pth''),
      (''en-india'', ''en-india.pth''),
      (''en-newest'', ''en-newest.pth''),
      (''en-us'', ''en-us.pth''),
      (''es'', ''es.pth''),
      (''fr'', ''fr.pth''),
      (''jp'', ''jp.pth''),
      (''kr'', ''kr.pth''),
      (''zh'', ''zh.pth'')]"

text \<open>
  What a handler answers: the value it returns, the \<^verbatim>\<open>HTTPException\<close> it raises,
  or an exception that it does not catch, which the framework answers with status 500.
  The fields of a request are as the handlers use them: the content type and the file
  name of an upload are strings, and the speed of a synthesis is a number that the
  program only hands on.
\<close>

datatype body =
    Message string string
  | Uploaded string string "string option" string
  | Voices "(string \<times> string \<times> string option \<times> string) list"
  | Synthesized string string string path string
  | FileResponse path string string
  | History "(string \<times> string \<times> string \<times> string \<times> string \<times> real \<times> string) list"

datatype response = OK body | HTTPException nat string | Unhandled error

fun status_code :: "response \<Rightarrow> nat" where
  "status_code (OK _) = 200"
| "status_code (HTTPException code _) = code"
| "status_code (Unhandled _) = 500"

text \<open>
  A call into the model library: it is recorded, and it returns or raises as the
  environment says (\<open>None\<close>: it returns; \<open>Some m\<close>: it raises with message \<open>m\<close>).
  Of the files of the service the library writes the ones it is asked to write: the
  embedding of \<^verbatim>\<open>torch.save\<close>, the speech of \<^verbatim>\<open>model.tts\<close> and the output of
  \<^verbatim>\<open>tone_color_converter.convert\<close>.
\<close>

definition library :: "event \<Rightarrow> string option \<Rightarrow> state \<Rightarrow> unit result" where
  "library ev outcome =
     seq (log ev)
       (\<lambda>_ st. case outcome of None \<Rightarrow> Return () st | Some m \<Rightarrow> Raise (LibraryError m) st)"

subsection \<open>\<^verbatim>\<open>upload_voice\<close>\<close>

text \<open>
  \<^verbatim>\<open>Path(name).suffix\<close>: the name is the last component of the path; the suffix starts
  at the last dot of the name, unless that dot is the first or the last character.
\<close>

fun split_on :: "char \<Rightarrow> string \<Rightarrow> string list" where
  "split_on sep [] = [[]]"
| "split_on sep (x # xs) =
     (if x = sep then [] # split_on sep xs
      else (case split_on sep xs of [] \<Rightarrow> [[x]] | w # ws \<Rightarrow> (x # w) # ws))"

definition path_name :: "string \<Rightarrow> string" where
  "path_name s =
     (case filter (\<lambda>w. w \<noteq> [] \<and> w \<noteq> ''.'') (split_on CHR ''/'' s) of
        [] \<Rightarrow> []
      | w # ws \<Rightarrow> last (w # ws))"

definition path_suffix :: "string \<Rightarrow> string" where
  "path_suffix s =
     (let name = path_name s;
          ext = rev (takeWhile (\<lambda>c. c \<noteq> CHR ''.'') (rev name));
          upto_dot = rev (dropWhile (\<lambda>c. c \<noteq> CHR ''.'') (rev name))
      in if 1 < length upto_dot \<and> ext \<noteq> [] then CHR ''.'' # ext else [])"

record upload_file =
  content_type :: string
  filename :: string
  file_data :: string

text \<open>
  \<^verbatim>\<open>torch.save\<close> writes the file at the path; when it raises it may have written a
  part of it already.
\<close>

datatype save_outcome = Saved | Save_raises string bool

record upload_env =
  up_uuid4 :: string
  up_now :: string
  up_get_se :: "string option"
  up_torch_save :: save_outcome
  up_sqlite :: "string option"

definition torch_save :: "save_outcome \<Rightarrow> embedding \<Rightarrow> path \<Rightarrow> state \<Rightarrow> unit result" where
  "torch_save outcome obj p =
     seq (log (Torch_save obj p))
       (\<lambda>_ st. case outcome of
                  Saved \<Rightarrow> os_call (OSError ''open'') (write_file p ''embedding'') st
                | Save_raises m partial \<Rightarrow>
                    Raise (LibraryError m)
                      (if partial
                       then (case write_file p ''emb'' (fs st) of
                               None \<Rightarrow> st
                             | Some t \<Rightarrow> st\<lparr>fs := t\<rparr>)
                       else st))"

text \<open>
  \<^verbatim>\<open>INSERT INTO voice_models\<close> and the commit: the primary key must be new. A row
  that is not committed is not in the table.
\<close>

definition insert_voice :: "string option \<Rightarrow> voice_row \<Rightarrow> state \<Rightarrow> unit result" where
  "insert_voice outcome row st =
     (case outcome of
        Some m \<Rightarrow> Raise (DatabaseError m) st
      | None \<Rightarrow>
          if vm_id row \<in> set (map vm_id (voice_models st))
          then Raise (DatabaseError ''UNIQUE constraint failed: voice_models.id'') st
          else Return () (st\<lparr>voice_models := voice_models st @ [row]\<rparr>))"

text \<open>The body of the \<^verbatim>\<open>try\<close> of \<^verbatim>\<open>upload_voice\<close>, lines 235 to 263.\<close>

definition upload_try ::
  "string \<Rightarrow> string \<Rightarrow> string option \<Rightarrow> path \<Rightarrow> path \<Rightarrow> upload_env \<Rightarrow> state \<Rightarrow> body result" where
  "upload_try voice_id name description voice_file_path se_file_path env =
     seq (library (Get_se voice_file_path) (up_get_se env))
       (\<lambda>_. let reference_speaker = Extracted voice_file_path in
        seq (torch_save (up_torch_save env) reference_speaker se_file_path)
       (\<lambda>_. seq (insert_voice (up_sqlite env)
                   \<lparr>vm_id = voice_id, vm_name = name, vm_description = description,
                    vm_file_path = voice_file_path, vm_se_file_path = se_file_path,
                    vm_created_at = up_now env\<rparr>)
       (\<lambda>_. Return (Uploaded voice_id name description
                      ''Voice uploaded and processed successfully''))))"

text \<open>The \<^verbatim>\<open>except\<close> of \<^verbatim>\<open>upload_voice\<close>, lines 265 to 271.\<close>

definition upload_except :: "error \<Rightarrow> path \<Rightarrow> path \<Rightarrow> state \<Rightarrow> response \<times> state" where
  "upload_except e voice_file_path se_file_path st =
     (case seq (\<lambda>st. if path_exists (fs st) voice_file_path
                      then os_call (OSError ''remove'') (unlink voice_file_path) st
                      else Return () st)
            (\<lambda>_ st. if path_exists (fs st) se_file_path
                      then os_call (OSError ''remove'') (unlink se_file_path) st
                      else Return () st) st of
        Raise e' st' \<Rightarrow> (Unhandled e', st')
      | Return _ st' \<Rightarrow> (HTTPException 500 (''Voice processing failed: '' @ str e), st'))"

text \<open>
  Lines 224 to 229: where the sample of an upload and its embedding are stored,
  \<^verbatim>\<open>voice_file_path\<close> and \<^verbatim>\<open>se_file_path\<close>.
\<close>

definition file_extension :: "upload_file \<Rightarrow> string" where
  "file_extension file =
     (if path_suffix (filename file) = [] then ''.wav'' else path_suffix (filename file))"

definition stored_voice_file :: "upload_file \<Rightarrow> upload_env \<Rightarrow> path" where
  "stored_voice_file file env = VOICES_DIR @ [up_uuid4 env @ file_extension file]"

definition stored_se_file :: "upload_env \<Rightarrow> path" where
  "stored_se_file env = VOICES_DIR @ [up_uuid4 env @ ''.pth'']"

definition upload_voice ::
  "upload_file \<Rightarrow> string \<Rightarrow> string option \<Rightarrow> upload_env \<Rightarrow> state \<Rightarrow> response \<times> state" where
  "upload_voice file name description env st =
     (if \<not> prefix ''audio/'' (content_type file)
      then (HTTPException 400 ''File must be an audio file'', st)
      else
        (let voice_id = up_uuid4 env;
             voice_file_path = stored_voice_file file env;
             se_file_path = stored_se_file env
         in case write_file voice_file_path (file_data file) (fs st) of
              None \<Rightarrow> (Unhandled (OSError ''open''), st)
            | Some t \<Rightarrow>
                (case upload_try voice_id name description voice_file_path se_file_path env
                        (st\<lparr>fs := t\<rparr>) of
                   Return b st' \<Rightarrow> (OK b, st')
                 | Raise e st' \<Rightarrow> upload_except e voice_file_path se_file_path st')))"

subsection \<open>\<^verbatim>\<open>list_voices\<close>\<close>

definition list_voices :: "state \<Rightarrow> response \<times> state" where
  "list_voices st =
     (OK (Voices (map (\<lambda>voice. (vm_id voice, vm_name voice, vm_description voice,
                               vm_created_at voice)) (voice_models st))), st)"
subsection \<open>\<^verbatim>\<open>synthesize_speech\<close>\<close>

record TTSRequest =
  req_text :: string
  req_voice_id :: string
  req_accent :: string
  req_speed :: real

record synth_env =
  sy_connect :: "string option"
  sy_load_target :: "string option"
  sy_uuid4 :: string
  sy_tmp_path :: path
  sy_fetch :: fetch_env
  sy_BaseSpeakerTTS :: "string option"
  sy_load_ckpt :: "string option"
  sy_load_source :: "string option"
  sy_speakers :: "string list option"
  sy_tts :: "string option"
  sy_convert :: "string option"
  sy_sqlite :: "string option"
  sy_now :: string

text \<open>
  Lines 325 to 333: the V2 base checkpoint \<^verbatim>\<open>EN_V2\<close> when both of its files exist,
  the V1 base checkpoint \<^verbatim>\<open>EN\<close> otherwise.
\<close>

definition select_base_tts :: "path \<Rightarrow> fetch_env \<Rightarrow> state \<Rightarrow> (path \<times> path) result" where
  "select_base_tts CHECKPOINT_DIR env st =
     (let v2_env2_cfg = CHECKPOINT_DIR @ [''base_speakers'', ''EN_V2'', ''config.json''];
          v2_env2_ckpt = CHECKPOINT_DIR @ [''base_speakers'', ''EN_V2'', ''checkpoint.pth'']
      in if path_exists (fs st) v2_env2_cfg \<and> path_exists (fs st) v2_env2_ckpt
         then Return (v2_env2_cfg, v2_env2_ckpt) st
         else seq (ensure_base_checkpoints_v1 env)
                (\<lambda>v1_base_dir.
                   Return (v1_base_dir @ [''base_speakers'', ''EN'', ''config.json''],
                           v1_base_dir @ [''base_speakers'', ''EN'', ''checkpoint.pth''])) st)"

text \<open>Lines 340 and 341: \<^verbatim>\<open>ACCENT_TO_SES_FILE.get(request.accent, 'en-newest.pth')\<close>.\<close>

definition ses_file :: "string \<Rightarrow> string" where
  "ses_file accent =
     (case map_of ACCENT_TO_SES_FILE accent of None \<Rightarrow> ''en-newest.pth'' | Some f \<Rightarrow> f)"

definition source_se_path :: "path \<Rightarrow> string \<Rightarrow> path" where
  "source_se_path CHECKPOINT_DIR accent =
     CHECKPOINT_DIR @ [''base_speakers'', ''ses'', ses_file accent]"

text \<open>Lines 347 and 348: the speaker key of the base model.\<close>

definition speaker_key :: "string list option \<Rightarrow> string" where
  "speaker_key hps_speakers =
     (let speakers = (case hps_speakers of None \<Rightarrow> [] | Some ks \<Rightarrow> ks)
      in if ''EN'' \<in> set speakers then ''EN''
         else (case speakers of [] \<Rightarrow> ''EN'' | k # _ \<Rightarrow> k))"

text \<open>
  \<^verbatim>\<open>INSERT INTO generated_audio\<close> and the commit. SQLite does not enforce the foreign
  key of the table unless it is asked to, and the program does not ask.
\<close>

definition insert_audio :: "string option \<Rightarrow> audio_row \<Rightarrow> state \<Rightarrow> unit result" where
  "insert_audio outcome row st =
     (case outcome of
        Some m \<Rightarrow> Raise (DatabaseError m) st
      | None \<Rightarrow>
          if ga_id row \<in> set (map ga_id (generated_audio st))
          then Raise (DatabaseError ''UNIQUE constraint failed: generated_audio.id'') st
          else Return () (st\<lparr>generated_audio := generated_audio st @ [row]\<rparr>))"

text \<open>
  The body of the \<^verbatim>\<open>try\<close> of \<^verbatim>\<open>synthesize_speech\<close>. Lines 335 to 379 come
  first, as a function of the configuration and the checkpoint of the base model that
  lines 325 to 333 have chosen; lines 313 to 333 follow.
\<close>

definition synthesize_with ::
  "path \<Rightarrow> TTSRequest \<Rightarrow> path \<Rightarrow> synth_env \<Rightarrow> path \<Rightarrow> path \<Rightarrow> state \<Rightarrow> body result" where
  "synthesize_with CHECKPOINT_DIR request se_file_path env base_cfg base_ckpt =
     (let target_se = Loaded se_file_path;
          output_id = sy_uuid4 env;
          output_path = AUDIO_DIR @ [output_id @ ''.wav''];
          tmp_path = sy_tmp_path env in
      seq (library (BaseSpeakerTTS base_cfg) (sy_BaseSpeakerTTS env))
       (\<lambda>_. seq (library (Load_ckpt base_ckpt) (sy_load_ckpt env))
       (\<lambda>_. seq (library (Torch_load (source_se_path CHECKPOINT_DIR (req_accent request)))
                   (sy_load_source env))
       (\<lambda>_. let source_se = Loaded (source_se_path CHECKPOINT_DIR (req_accent request)) in
        seq (library (Tts (req_text request) tmp_path (speaker_key (sy_speakers env))
                        (req_speed request)) (sy_tts env))
       (\<lambda>_. seq (os_call (OSError ''open'') (write_file tmp_path ''base speech''))
       (\<lambda>_. seq (library (Convert tmp_path source_se target_se output_path) (sy_convert env))
       (\<lambda>_. seq (os_call (OSError ''open'') (write_file output_path ''converted speech''))
       (\<lambda>_. seq (os_call (OSError ''unlink'') (unlink tmp_path))
       (\<lambda>_. seq (insert_audio (sy_sqlite env)
                   \<lparr>ga_id = output_id, ga_voice_id = req_voice_id request,
                    ga_text = req_text request, ga_file_path = output_path,
                    ga_accent = req_accent request, ga_speed = req_speed request,
                    ga_created_at = sy_now env\<rparr>)
       (\<lambda>_. Return (Synthesized output_id (req_voice_id request) (req_text request)
                      output_path ''Speech synthesized successfully'')))))))))))"

definition synthesize_try ::
  "path \<Rightarrow> TTSRequest \<Rightarrow> path \<Rightarrow> synth_env \<Rightarrow> state \<Rightarrow> body result" where
  "synthesize_try CHECKPOINT_DIR request se_file_path env =
     seq (library (Torch_load se_file_path) (sy_load_target env))
       (\<lambda>_. seq (os_call (OSError ''mkstemp'') (create (sy_tmp_path env) (File [])))
       (\<lambda>_. seq (select_base_tts CHECKPOINT_DIR (sy_fetch env))
       (\<lambda>(base_cfg, base_ckpt).
          synthesize_with CHECKPOINT_DIR request se_file_path env base_cfg base_ckpt)))"

definition synthesize_speech ::
  "path \<Rightarrow> TTSRequest \<Rightarrow> synth_env \<Rightarrow> state \<Rightarrow> response \<times> state" where
  "synthesize_speech CHECKPOINT_DIR request env st =
     (case sy_connect env of
        Some m \<Rightarrow> (Unhandled (DatabaseError m), st)
      | None \<Rightarrow>
          (case find (\<lambda>row. vm_id row = req_voice_id request) (voice_models st) of
             None \<Rightarrow> (HTTPException 404 ''Voice model not found'', st)
           | Some result \<Rightarrow>
               (case synthesize_try CHECKPOINT_DIR request (vm_se_file_path result) env st of
                  Return b st' \<Rightarrow> (OK b, st')
                | Raise e st' \<Rightarrow>
                    (HTTPException 500 (''Speech synthesis failed: '' @ str e), st'))))"

subsection \<open>\<^verbatim>\<open>get_audio\<close> and \<^verbatim>\<open>get_generation_history\<close>\<close>

definition get_audio :: "string \<Rightarrow> state \<Rightarrow> response \<times> state" where
  "get_audio audio_id st =
     (case find (\<lambda>row. ga_id row = audio_id) (generated_audio st) of
        None \<Rightarrow> (HTTPException 404 ''Audio file not found'', st)
      | Some result \<Rightarrow>
          if \<not> path_exists (fs st) (ga_file_path result)
          then (HTTPException 404 ''Audio file not found'', st)
          else (OK (FileResponse (ga_file_path result) ''audio/wav'' (audio_id @ ''.wav'')), st))"

text \<open>
  \<^verbatim>\<open>ORDER BY ga.created_at DESC\<close> compares the texts byte by byte. SQL leaves the
  order of rows with equal keys open; here they stay in the order of the join.
\<close>

fun text_less :: "string \<Rightarrow> string \<Rightarrow> bool" where
  "text_less [] [] = False"
| "text_less [] (y # ys) = True"
| "text_less (x # xs) [] = False"
| "text_less (x # xs) (y # ys) =
     ((of_char x :: nat) < of_char y \<or> (x = y \<and> text_less xs ys))"

fun insert_desc :: "audio_row \<times> voice_row \<Rightarrow> (audio_row \<times> voice_row) list \<Rightarrow> (audio_row \<times> voice_row) list" where
  "insert_desc r [] = [r]"
| "insert_desc r (x # xs) =
     (if text_less (ga_created_at (fst x)) (ga_created_at (fst r)) then r # x # xs
      else x # insert_desc r xs)"

definition order_by_created_at_desc :: "(audio_row \<times> voice_row) list \<Rightarrow> (audio_row \<times> voice_row) list" where
  "order_by_created_at_desc rows = foldr insert_desc rows []"

definition get_generation_history :: "state \<Rightarrow> response \<times> state" where
  "get_generation_history st =
     (let joined = concat (map (\<lambda>ga. map (\<lambda>vm. (ga, vm))
                                        (filter (\<lambda>vm. ga_voice_id ga = vm_id vm) (voice_models st)))
                            (generated_audio st));
          history = order_by_created_at_desc joined
      in (OK (History (map (\<lambda>(ga, vm). (ga_id ga, ga_voice_id ga, vm_name vm, ga_text ga,
                                         ga_accent ga, ga_speed ga, ga_created_at ga))
                         history)), st))"

subsection \<open>The service\<close>

definition root :: "state \<Rightarrow> response \<times> state" where
  "root st = (OK (Message ''OpenVoice V2 API Server'' ''2.0.0''), st)"

datatype request =
    Root
  | UploadVoice upload_file string "string option" upload_env
  | ListVoices
  | SynthesizeSpeech TTSRequest synth_env
  | GetAudio string
  | GetGenerationHistory

fun handle :: "path \<Rightarrow> request \<Rightarrow> state \<Rightarrow> response \<times> state" where
  "handle CHECKPOINT_DIR Root st = root st"
| "handle CHECKPOINT_DIR (UploadVoice file name description env) st =
     upload_voice file name description env st"
| "handle CHECKPOINT_DIR ListVoices st = list_voices st"
| "handle CHECKPOINT_DIR (SynthesizeSpeech request env) st =
     synthesize_speech CHECKPOINT_DIR request env st"
| "handle CHECKPOINT_DIR (GetAudio audio_id) st = get_audio audio_id st"
| "handle CHECKPOINT_DIR GetGenerationHistory st = get_generation_history st"

text \<open>The service answers one request after the other.\<close>

fun serve :: "path \<Rightarrow> request list \<Rightarrow> state \<Rightarrow> state" where
  "serve CHECKPOINT_DIR [] st = st"
| "serve CHECKPOINT_DIR (r # rs) st = serve CHECKPOINT_DIR rs (snd (handle CHECKPOINT_DIR r st))"

text \<open>
  The state in which the service starts on a new database file, after
  \<^verbatim>\<open>init_database\<close> has created both tables.
\<close>

definition init_database :: "node \<Rightarrow> state" where
  "init_database t = \<lparr>fs = t, trace = [], voice_models = [], generated_audio = []\<rparr>"
section \<open>What a handler adds to the state\<close>

text \<open>
  \<open>grows E G st st'\<close>: from \<open>st\<close> to \<open>st'\<close> the table \<^verbatim>\<open>voice_models\<close> is unchanged,
  the trace has grown by events that satisfy \<open>E\<close>, and \<^verbatim>\<open>generated_audio\<close> has grown
  by rows that satisfy \<open>G\<close>.
\<close>

definition grows :: "(event \<Rightarrow> bool) \<Rightarrow> (audio_row \<Rightarrow> bool) \<Rightarrow> state \<Rightarrow> state \<Rightarrow> bool" where
  "grows E G st st' \<longleftrightarrow>
     voice_models st' = voice_models st \<and>
     (\<exists>evs. trace st' = trace st @ evs \<and> list_all E evs) \<and>
     (\<exists>gs. generated_audio st' = generated_audio st @ gs \<and> list_all G gs)"

text \<open>
  The calls into the model library that \<^verbatim>\<open>synthesize_speech\<close> makes once the base
  model is chosen, in the order of lines 336 to 359.
\<close>

definition synthesis_calls ::
  "path \<Rightarrow> TTSRequest \<Rightarrow> path \<Rightarrow> synth_env \<Rightarrow> path \<Rightarrow> path \<Rightarrow> event list" where
  "synthesis_calls CHECKPOINT_DIR request se_file_path env base_cfg base_ckpt =
     [BaseSpeakerTTS base_cfg,
      Load_ckpt base_ckpt,
      Torch_load (source_se_path CHECKPOINT_DIR (req_accent request)),
      Tts (req_text request) (sy_tmp_path env) (speaker_key (sy_speakers env))
        (req_speed request),
      Convert (sy_tmp_path env)
        (Loaded (source_se_path CHECKPOINT_DIR (req_accent request)))
        (Loaded se_file_path)
        (AUDIO_DIR @ [sy_uuid4 env @ ''.wav''])]"

definition is_download :: "event \<Rightarrow> bool" where
  "is_download ev = (case ev of Urlretrieve _ _ \<Rightarrow> True | _ \<Rightarrow> False)"

text \<open>
  The invariant of the data model: the voice reference of every row of
  \<^verbatim>\<open>generated_audio\<close> is the identifier of a row of \<^verbatim>\<open>voice_models\<close>.
\<close>

definition refs_resolve :: "state \<Rightarrow> bool" where
  "refs_resolve st =
     list_all (\<lambda>g. list_ex (\<lambda>v. vm_id v = ga_voice_id g) (voice_models st))
       (generated_audio st)"

fun is_upload :: "request \<Rightarrow> bool" where
  "is_upload (UploadVoice _ _ _ _) = True"
| "is_upload _ = False"
section \<open>Concrete inputs\<close>

text \<open>
  The tree of the V2 checkpoints as the archive ships it, reduced to the three
  required files, and two states of the working directory: one with the checkpoints
  complete, one where an earlier extraction was interrupted and left
  \<^verbatim>\<open>checkpoints_v2/converter\<close> with \<^verbatim>\<open>config.json\<close> only.
\<close>

definition complete_checkpoints :: entries where
  "complete_checkpoints =
     [(''converter'',
         Dir [(''config.json'', File ''cfg''), (''checkpoint.pth'', File ''ckpt'')]),
      (''base_speakers'', Dir [(''ses'', Dir [(''en-newest.pth'', File ''se'')])])]"

definition v2_archive_env :: fetch_env where
  "v2_archive_env =
     \<lparr>served = Payload ''zip'' (Some [(''checkpoints_v2'', Dir complete_checkpoints)]),
      tmp_zip_path = [''tmp'', ''tmpa.zip''],
      tmp_dir = [''tmp'', ''tmpb'']\<rparr>"

definition complete_fs :: node where
  "complete_fs = Dir [(''tmp'', Dir []), (''checkpoints_v2'', Dir complete_checkpoints)]"

definition interrupted_fs :: node where
  "interrupted_fs =
     Dir [(''tmp'', Dir []),
          (''checkpoints_v2'', Dir [(''converter'', Dir [(''config.json'', File ''cfg'')])])]"

text \<open>
  A working directory of the running service, an upload of a WAV file, and two
  environments for it: one where the extraction of the embedding raises, one where
  every step succeeds.
\<close>

definition service_fs :: node where
  "service_fs =
     Dir [(''tmp'', Dir []), (''voices'', Dir []), (''audio_files'', Dir []),
          (''checkpoints_v2'', Dir complete_checkpoints)]"

definition sample_upload :: upload_file where
  "sample_upload =
     \<lparr>content_type = ''audio/wav'', filename = ''sample.wav'', file_data = ''RIFF''\<rparr>"

definition image_upload :: upload_file where
  "image_upload =
     \<lparr>content_type = ''image/png'', filename = ''face.png'', file_data = ''PNG''\<rparr>"

definition failing_upload_env :: upload_env where
  "failing_upload_env =
     \<lparr>up_uuid4 = ''0b5c'', up_now = ''2024-05-01T10:00:00'',
      up_get_se = Some ''no speech found'', up_torch_save = Saved, up_sqlite = None\<rparr>"

definition good_upload_env :: upload_env where
  "good_upload_env =
     \<lparr>up_uuid4 = ''0b5c'', up_now = ''2024-05-01T10:00:00'',
      up_get_se = None, up_torch_save = Saved, up_sqlite = None\<rparr>"

text \<open>
  The V1 archive reduced to the base model \<^verbatim>\<open>EN\<close>, a working directory that has
  the V2 base model \<^verbatim>\<open>EN_V2\<close>, and requests to synthesize: for the voice of the
  upload above with an accent of the table, with an accent that the table does not
  have, and for a voice that does not exist.
\<close>

definition v1_archive_env :: fetch_env where
  "v1_archive_env =
     \<lparr>served = Payload ''zip''
        (Some [(''checkpoints'',
                Dir [(''base_speakers'',
                      Dir [(''EN'', Dir [(''config.json'', File ''cfg''),
                                         (''checkpoint.pth'', File ''ckpt'')])])])]),
      tmp_zip_path = [''tmp'', ''tmpd.zip''],
      tmp_dir = [''tmp'', ''tmpe'']\<rparr>"

definition service_fs_v2 :: node where
  "service_fs_v2 =
     Dir [(''tmp'', Dir []), (''voices'', Dir []), (''audio_files'', Dir []),
          (''checkpoints_v2'',
           Dir [(''converter'',
                 Dir [(''config.json'', File ''cfg''), (''checkpoint.pth'', File ''ckpt'')]),
                (''base_speakers'',
                 Dir [(''ses'', Dir [(''en-newest.pth'', File ''se''), (''fr.pth'', File ''se'')]),
                      (''EN_V2'', Dir [(''config.json'', File ''cfg''),
                                       (''checkpoint.pth'', File ''ckpt'')])])])]"

definition good_synth_env :: synth_env where
  "good_synth_env =
     \<lparr>sy_connect = None, sy_load_target = None, sy_uuid4 = ''77aa'',
      sy_tmp_path = [''tmp'', ''tmpc.wav''], sy_fetch = v1_archive_env,
      sy_BaseSpeakerTTS = None, sy_load_ckpt = None, sy_load_source = None,
      sy_speakers = Some [''EN''], sy_tts = None, sy_convert = None, sy_sqlite = None,
      sy_now = ''2024-05-01T10:05:00''\<rparr>"

definition french_request :: TTSRequest where
  "french_request =
     \<lparr>req_text = ''Bonjour'', req_voice_id = ''0b5c'', req_accent = ''fr'', req_speed = 1\<rparr>"

definition klingon_request :: TTSRequest where
  "klingon_request =
     \<lparr>req_text = ''nuqneH'', req_voice_id = ''0b5c'', req_accent = ''tlh'', req_speed = 1\<rparr>"

definition stranger_request :: TTSRequest where
  "stranger_request =
     \<lparr>req_text = ''Hello'', req_voice_id = ''ffff'', req_accent = ''en-us'', req_speed = 1\<rparr>"

definition session :: "request list" where
  "session =
     [UploadVoice sample_upload ''Ann'' None good_upload_env,
      SynthesizeSpeech french_request good_synth_env,
      ListVoices,
      SynthesizeSpeech stranger_request good_synth_env,
      GetAudio ''77aa'',
      GetGenerationHistory]"

text \<open>The service after the upload of the sample, in a given working directory.\<close>

definition voice_uploaded :: "node \<Rightarrow> state" where
  "voice_uploaded t = serve [''checkpoints_v2''] (take 1 session) (init_database t)"

text \<open>
  A working directory without checkpoints, and an archive whose only
  \<^verbatim>\<open>converter\<close> directory lacks \<^verbatim>\<open>checkpoint.pth\<close>.
\<close>

definition empty_fs :: node where
  "empty_fs = Dir [(''tmp'', Dir [])]"

definition broken_members :: entries where
  "broken_members =
     [(''checkpoints_v2'', Dir [(''converter'', Dir [(''config.json'', File ''cfg'')])])]"

definition broken_archive_env :: fetch_env where
  "broken_archive_env =
     \<lparr>served = Payload ''zip'' (Some broken_members),
      tmp_zip_path = [''tmp'', ''tmpa.zip''],
      tmp_dir = [''tmp'', ''tmpb'']\<rparr>"

text \<open>
  An archive that has both marker files of the converter and no source embeddings.
\<close>

definition no_ses_archive_env :: fetch_env where
  "no_ses_archive_env =
     \<lparr>served = Payload ''zip''
        (Some [(''checkpoints_v2'',
                Dir [(''converter'',
                      Dir [(''config.json'', File ''cfg''),
                           (''checkpoint.pth'', File ''ckpt'')])])]),
      tmp_zip_path = [''tmp'', ''tmpa.zip''],
      tmp_dir = [''tmp'', ''tmpb'']\<rparr>"

text \<open>
  An archive with two directories that both hold the marker files of the converter;
  \<^verbatim>\<open>old\<close> comes first in the listing.
\<close>

definition twin_members :: entries where
  "twin_members =
     [(''old'',
         Dir [(''converter'',
                 Dir [(''config.json'', File ''cfg1''), (''checkpoint.pth'', File ''ckpt1'')])]),
      (''new'',
         Dir [(''converter'',
                 Dir [(''config.json'', File ''cfg2''), (''checkpoint.pth'', File ''ckpt2'')])])]"

definition twin_archive_env :: fetch_env where
  "twin_archive_env =
     \<lparr>served = Payload ''zip'' (Some twin_members),
      tmp_zip_path = [''tmp'', ''tmpa.zip''],
      tmp_dir = [''tmp'', ''tmpb'']\<rparr>"

text \<open>An upload of audio whose file name has the suffix of the embeddings.\<close>

definition pth_upload :: upload_file where
  "pth_upload =
     \<lparr>content_type = ''audio/wav'', filename = ''voice.pth'', file_data = ''RIFF''\<rparr>"

section \<open>Facts about the file system\<close>

lemma lookup_append:
  "lookup (p @ q) t = (case lookup p t of None \<Rightarrow> None | Some n \<Rightarrow> lookup q n)"
proof (induction p arbitrary: t)
  case Nil
  show ?case by simp
next
  case (Cons c cs)
  show ?case
  proof (cases t)
    case (File x)
    then show ?thesis by simp
  next
    case (Dir es)
    then show ?thesis using Cons.IH by (simp split: option.splits)
  qed
qed

lemma modify_SomeD:
  assumes "modify d f t = Some t'"
  shows "\<exists>es es'. lookup d t = Some (Dir es) \<and> f es = Some es' \<and> lookup d t' = Some (Dir es')"
  using assms
proof (induction d arbitrary: t t')
  case Nil
  then show ?case by (cases t) auto
next
  case (Cons c cs)
  then show ?case
    by (cases t) (auto split: option.splits simp: update_conv')
qed

lemma modify_lookup_diverge:
  assumes "modify d f t = Some t'" and "\<not> prefix d p" and "\<not> prefix p d"
  shows "lookup p t' = lookup p t"
  using assms
proof (induction d arbitrary: t t' p)
  case Nil
  then show ?case by simp
next
  case (Cons c cs)
  then obtain x xs where p: "p = x # xs" by (cases p) auto
  show ?case
  proof (cases t)
    case (File s)
    with Cons.prems show ?thesis by simp
  next
    case (Dir es)
    with Cons.prems obtain m m' where m: "map_of es c = Some m" "modify cs f m = Some m'"
      and t': "t' = Dir (AList.update c m' es)"
      by (auto split: option.splits)
    show ?thesis
    proof (cases "x = c")
      case True
      with Cons.prems p have "\<not> prefix cs xs" "\<not> prefix xs cs" by auto
      from Cons.IH [OF m(2) this] show ?thesis
        using True p t' Dir m by (simp add: update_conv')
    next
      case False
      then show ?thesis using p t' Dir by (simp add: update_conv')
    qed
  qed
qed

lemma modify_modify:
  assumes "modify d f t = Some t'"
  shows "modify d g t' = modify d (\<lambda>es. case f es of None \<Rightarrow> None | Some es' \<Rightarrow> g es') t"
  using assms
proof (induction d arbitrary: t t')
  case Nil
  then show ?case by (cases t) auto
next
  case (Cons c cs)
  show ?case
  proof (cases t)
    case (File s)
    with Cons.prems show ?thesis by simp
  next
    case (Dir es)
    with Cons.prems obtain m m' where m: "map_of es c = Some m" "modify cs f m = Some m'"
      and t': "t' = Dir (AList.update c m' es)"
      by (auto split: option.splits)
    have "AList.update c v (AList.update c m' es) = AList.update c v es" for v
      by (induction es) auto
    with Cons.IH [OF m(2)] show ?thesis
      using t' Dir m by (simp add: update_conv' split: option.splits)
  qed
qed

lemma modify_id:
  assumes "lookup d t = Some (Dir es)" and "f es = Some es"
  shows "modify d f t = Some t"
  using assms
proof (induction d arbitrary: t)
  case Nil
  then show ?case by simp
next
  case (Cons c cs)
  then show ?case
    by (cases t) (auto split: option.splits simp: update_triv)
qed

lemma modify_snoc:
  "modify (d @ [c]) f t =
     modify d (\<lambda>es. case map_of es c of
                      Some (Dir es0) \<Rightarrow>
                        (case f es0 of None \<Rightarrow> None
                         | Some es1 \<Rightarrow> Some (AList.update c (Dir es1) es))
                    | _ \<Rightarrow> None) t"
proof (induction d arbitrary: t)
  case Nil
  show ?case
  proof (cases t)
    case (File s)
    then show ?thesis by simp
  next
    case (Dir es)
    then show ?thesis
      by (auto split: option.splits node.splits)
  qed
next
  case (Cons x xs)
  then show ?case by (cases t) (auto split: option.splits)
qed

lemma modify_Some:
  assumes "lookup d t = Some (Dir es)" and "f es = Some es'"
  shows "\<exists>t'. modify d f t = Some t'"
  using assms
proof (induction d arbitrary: t)
  case Nil
  then show ?case by simp
next
  case (Cons c cs)
  then show ?case
    by (cases t) (fastforce split: option.splits)+
qed

lemma modify_lookup_under:
  assumes "modify d f t = Some t'"
  shows "\<exists>es es'. lookup d t = Some (Dir es) \<and> f es = Some es' \<and>
           (\<forall>r. lookup (d @ r) t' = lookup r (Dir es') \<and> lookup (d @ r) t = lookup r (Dir es))"
  using modify_SomeD [OF assms] by (auto simp: lookup_append)

lemma lookup_snocD:
  assumes "lookup (d @ [c]) t = Some n"
  shows "\<exists>es. lookup d t = Some (Dir es) \<and> map_of es c = Some n"
proof -
  from assms obtain m where m: "lookup d t = Some m" "lookup [c] m = Some n"
    by (auto simp: lookup_append split: option.splits)
  then show ?thesis by (cases m) (auto split: option.splits)
qed

lemma lookup_snoc:
  "lookup (d @ [c]) t = (case lookup d t of Some (Dir es) \<Rightarrow> map_of es c | _ \<Rightarrow> None)"
  by (auto simp: lookup_append split: option.splits node.splits)

lemma split_path: "p \<noteq> [] \<Longrightarrow> p = butlast p @ [last p]"
  by simp

text \<open>What a write leaves at the path itself, and that it leaves every path alone that is
  neither the path nor above it.\<close>

lemma write_file_lookup_same:
  assumes "write_file q c t = Some t'"
  shows "lookup q t' = Some (File c)"
proof -
  from assms have q: "q \<noteq> []" by (auto simp: write_file_def split: if_splits)
  let ?f = "\<lambda>es. case map_of es (last q) of Some (Dir _) \<Rightarrow> None
              | _ \<Rightarrow> Some (AList.update (last q) (File c) es)"
  from assms q have "modify (butlast q) ?f t = Some t'" by (simp add: write_file_def)
  from modify_lookup_under [OF this] obtain es es' where
    es: "?f es = Some es'" "\<forall>r. lookup (butlast q @ r) t' = lookup r (Dir es')" by blast
  from es(1) have "map_of es' (last q) = Some (File c)"
    by (auto split: option.splits node.splits simp: update_conv')
  with es(2) [rule_format, of "[last q]"] q show ?thesis by simp
qed

lemma local_change_lookup:
  assumes m: "modify (butlast q) f t = Some t'" and q: "q \<noteq> []"
    and local: "\<And>es es' x. f es = Some es' \<Longrightarrow> x \<noteq> last q \<Longrightarrow> map_of es' x = map_of es x"
    and np: "\<not> prefix p q" and nq: "\<not> prefix q p"
  shows "lookup p t' = lookup p t"
proof (cases "prefix (butlast q) p")
  case False
  moreover from np have "\<not> prefix p (butlast q)"
    by (metis prefix_order.trans prefixeq_butlast)
  ultimately show ?thesis using modify_lookup_diverge [OF m] by blast
next
  case True
  then obtain r where r: "p = butlast q @ r" by (auto simp: prefix_def)
  from modify_lookup_under [OF m] obtain es es' where
    es: "f es = Some es'" "\<forall>r. lookup (butlast q @ r) t' = lookup r (Dir es') \<and>
        lookup (butlast q @ r) t = lookup r (Dir es)" by blast
  from np r have "r \<noteq> []" using prefixeq_butlast [of q] by auto
  then obtain x xs where x: "r = x # xs" by (cases r) auto
  have "x \<noteq> last q"
  proof
    assume "x = last q"
    with r x q have "p = q @ xs" by simp
    with nq show False by simp
  qed
  from local [OF es(1) this] es(2) r x show ?thesis by simp
qed

lemma write_file_lookup_other:
  assumes "write_file q c t = Some t'" and "\<not> prefix p q" and "\<not> prefix q p"
  shows "lookup p t' = lookup p t"
proof -
  from assms have q: "q \<noteq> []" by (auto simp: write_file_def split: if_splits)
  show ?thesis
    by (rule local_change_lookup [OF _ q _ assms(2,3)])
      (use assms(1) q in \<open>auto simp: write_file_def update_conv' split: option.splits node.splits\<close>)
qed

lemma unbind_lookup_other:
  assumes "unbind q t = Some t'" and "\<not> prefix p q" and "\<not> prefix q p"
  shows "lookup p t' = lookup p t"
proof -
  from assms have q: "q \<noteq> []" by (auto simp: unbind_def split: if_splits)
  show ?thesis
    by (rule local_change_lookup [OF _ q _ assms(2,3)])
      (use assms(1) q in \<open>auto simp: unbind_def delete_conv' split: if_splits\<close>)
qed

lemma create_lookup_other:
  assumes "create q n t = Some t'" and "\<not> prefix p q" and "\<not> prefix q p"
  shows "lookup p t' = lookup p t"
proof -
  from assms have q: "q \<noteq> []" by (auto simp: create_def split: if_splits)
  show ?thesis
    by (rule local_change_lookup [OF _ q _ assms(2,3)])
      (use assms(1) q in \<open>auto simp: create_def map_add_def split: if_splits option.splits\<close>)
qed

lemma unbind_lookup_below:
  assumes "unbind q t = Some t'"
  shows "lookup (q @ r) t' = None"
proof -
  from assms have q: "q \<noteq> []" by (auto simp: unbind_def split: if_splits)
  let ?f = "\<lambda>es. if map_of es (last q) = None then None else Some (AList.delete (last q) es)"
  from assms q have "modify (butlast q) ?f t = Some t'" by (simp add: unbind_def)
  from modify_lookup_under [OF this] obtain es es' where
    es: "?f es = Some es'" "\<forall>r. lookup (butlast q @ r) t' = lookup r (Dir es')" by blast
  from es(1) have "map_of es' (last q) = None"
    by (auto split: if_splits simp: delete_conv')
  with es(2) [rule_format, of "last q # r"] q show ?thesis
    by (metis append.assoc append_Cons append_Nil lookup.simps(3) option.simps(4) split_path)
qed

lemma unbind_Some:
  assumes "lookup q t = Some n" and "q \<noteq> []"
  shows "\<exists>t'. unbind q t = Some t'"
proof -
  from assms have "lookup (butlast q @ [last q]) t = Some n" by simp
  from lookup_snocD [OF this] obtain es where
    "lookup (butlast q) t = Some (Dir es)" "map_of es (last q) = Some n" by blast
  then show ?thesis using assms(2) by (auto simp: unbind_def intro!: modify_Some)
qed

lemma lookup_prefix_exists:
  assumes "lookup (p @ r) t = Some n"
  shows "lookup p t \<noteq> None"
  using assms by (auto simp: lookup_append split: option.splits)

lemma create_lookup_same:
  assumes "create q n t = Some t'"
  shows "lookup q t = None \<and> lookup q t' = Some n"
proof -
  from assms have q: "q \<noteq> []" by (auto simp: create_def split: if_splits)
  let ?f = "\<lambda>es. if map_of es (last q) = None then Some (es @ [(last q, n)]) else None"
  from assms q have "modify (butlast q) ?f t = Some t'" by (simp add: create_def)
  from modify_lookup_under [OF this] obtain es es' where
    es: "?f es = Some es'"
      "\<forall>r. lookup (butlast q @ r) t' = lookup r (Dir es') \<and>
           lookup (butlast q @ r) t = lookup r (Dir es)" by blast
  from es(1) have "map_of es (last q) = None" "map_of es' (last q) = Some n"
    by (auto split: if_splits simp: map_add_def)
  with es(2) [rule_format, of "[last q]"] q show ?thesis by simp
qed

lemma create_file_path_exists:
  assumes "create q (File c) t = Some t'" and "p \<noteq> q"
  shows "path_exists t' p = path_exists t p"
proof -
  from create_lookup_same [OF assms(1)]
  have q: "lookup q t = None" "lookup q t' = Some (File c)" by simp_all
  consider (above) "prefix p q" | (below) "prefix q p" | (apart) "\<not> prefix p q" "\<not> prefix q p"
    by blast
  then show ?thesis
  proof cases
    case above
    then obtain r where r: "q = p @ r" by (auto simp: prefix_def)
    with assms(2) have "r \<noteq> []" by auto
    from assms(1) have "q \<noteq> []" by (auto simp: create_def split: if_splits)
    from assms(1) \<open>q \<noteq> []\<close> obtain es where "lookup (butlast q) t = Some (Dir es)"
      by (auto simp: create_def dest!: modify_SomeD)
    moreover from r \<open>r \<noteq> []\<close> have "butlast q = p @ butlast r"
      by (simp add: butlast_append)
    ultimately have "lookup p t \<noteq> None" using lookup_prefix_exists by metis
    moreover from q(2) r have "lookup p t' \<noteq> None" using lookup_prefix_exists by metis
    ultimately show ?thesis by (simp add: path_exists_def)
  next
    case below
    then obtain r where r: "p = q @ r" by (auto simp: prefix_def)
    with assms(2) have "r \<noteq> []" by auto
    then obtain x xs where "r = x # xs" by (cases r) auto
    with q r show ?thesis by (simp add: path_exists_def lookup_append)
  next
    case apart
    from create_lookup_other [OF assms(1) apart] show ?thesis by (simp add: path_exists_def)
  qed
qed

lemma modify_chain_id:
  assumes "modify d f t = Some t1" and "\<And>es es'. f es = Some es' \<Longrightarrow> g es' = Some es"
  shows "modify d g t1 = Some t"
proof -
  from modify_SomeD [OF assms(1)] obtain es es' where
    es: "lookup d t = Some (Dir es)" "f es = Some es'" by blast
  from assms(2) [OF es(2)] es(2)
  have "(case f es of None \<Rightarrow> None | Some es' \<Rightarrow> g es') = Some es" by simp
  with es(1) have "modify d (\<lambda>es. case f es of None \<Rightarrow> None | Some es' \<Rightarrow> g es') t = Some t"
    by (rule modify_id)
  with modify_modify [OF assms(1), of g] show ?thesis by simp
qed

lemma delete_fresh_snoc:
  assumes "map_of es c = None"
  shows "AList.delete c (es @ [(c, n)]) = es"
proof -
  from assms have "c \<notin> fst ` set es" by (simp add: map_of_eq_None_iff)
  then have "AList.delete c es = es" by simp
  then show ?thesis by (simp add: AList.delete_eq)
qed

lemma create_unbind:
  assumes "create q n t = Some t1"
  shows "unbind q t1 = Some t"
proof -
  from assms have q: "q \<noteq> []" by (auto simp: create_def split: if_splits)
  let ?C = "\<lambda>es. if map_of es (last q) = None then Some (es @ [(last q, n)]) else None"
  let ?U = "\<lambda>es. if map_of es (last q) = None then None else Some (AList.delete (last q) es)"
  from assms q have C: "modify (butlast q) ?C t = Some t1"
    by (simp add: create_def)
  have "modify (butlast q) ?U t1 = Some t"
  proof (rule modify_chain_id [OF C])
    fix es es'
    assume "?C es = Some es'"
    then have es: "map_of es (last q) = None" "es' = es @ [(last q, n)]"
      by (auto split: if_splits)
    then show "?U es' = Some es"
      by (simp add: map_add_def delete_fresh_snoc)
  qed
  then show ?thesis using q by (simp add: unbind_def)
qed

lemma create_write_unbind:
  assumes "create q (File c0) t = Some t1" and "write_file q c t1 = Some t2"
  shows "unbind q t2 = Some t"
proof -
  from assms have q: "q \<noteq> []" by (auto simp: create_def split: if_splits)
  let ?C = "\<lambda>es. if map_of es (last q) = None then Some (es @ [(last q, File c0)]) else None"
  let ?W = "\<lambda>es. case map_of es (last q) of Some (Dir _) \<Rightarrow> None
              | _ \<Rightarrow> Some (AList.update (last q) (File c) es)"
  let ?U = "\<lambda>es. if map_of es (last q) = None then None else Some (AList.delete (last q) es)"
  from assms q have C: "modify (butlast q) ?C t = Some t1" and W: "modify (butlast q) ?W t1 = Some t2"
    by (simp_all add: create_def write_file_def)
  have "modify (butlast q) ?U t2 =
      modify (butlast q) (\<lambda>es. case ?W es of None \<Rightarrow> None | Some es' \<Rightarrow> ?U es') t1"
    by (rule modify_modify [OF W])
  also have "\<dots> = Some t"
  proof (rule modify_chain_id [OF C])
    fix es es'
    assume "?C es = Some es'"
    then have es: "map_of es (last q) = None" "es' = es @ [(last q, File c0)]"
      by (auto split: if_splits)
    then show "(case ?W es' of None \<Rightarrow> None | Some es' \<Rightarrow> ?U es') = Some es"
      by (simp add: map_add_def update_conv' delete_update_same delete_fresh_snoc)
  qed
  finally show ?thesis using q by (simp add: unbind_def)
qed

lemma create_extractall_unbind:
  assumes "create q (Dir []) t = Some t1" and "extractall members q t1 = Some t2"
  shows "unbind q t2 = Some t \<and> lookup q t2 = Some (Dir members)"
proof -
  from assms have q: "q \<noteq> []" by (auto simp: create_def split: if_splits)
  let ?C = "\<lambda>es. if map_of es (last q) = None then Some (es @ [(last q, Dir [])]) else None"
  let ?X = "\<lambda>es. case map_of es (last q) of
                   Some (Dir es0) \<Rightarrow>
                     (case Some members of None \<Rightarrow> None
                      | Some es1 \<Rightarrow> Some (AList.update (last q) (Dir es1) es))
                 | _ \<Rightarrow> None"
  let ?U = "\<lambda>es. if map_of es (last q) = None then None else Some (AList.delete (last q) es)"
  from assms q have C: "modify (butlast q) ?C t = Some t1"
    by (simp add: create_def)
  from q have "extractall members q t1 = modify (butlast q @ [last q]) (\<lambda>_. Some members) t1"
    by (simp add: extractall_def)
  with assms(2) have X: "modify (butlast q) ?X t1 = Some t2"
    by (simp only: modify_snoc)
  have "modify (butlast q) ?U t2 =
      modify (butlast q) (\<lambda>es. case ?X es of None \<Rightarrow> None | Some es' \<Rightarrow> ?U es') t1"
    by (rule modify_modify [OF X])
  also have "\<dots> = Some t"
  proof (rule modify_chain_id [OF C])
    fix es es'
    assume "?C es = Some es'"
    then have es: "map_of es (last q) = None" "es' = es @ [(last q, Dir [])]"
      by (auto split: if_splits)
    then show "(case ?X es' of None \<Rightarrow> None | Some es' \<Rightarrow> ?U es') = Some es"
      by (simp add: map_add_def update_conv' delete_update_same delete_fresh_snoc)
  qed
  finally have "unbind q t2 = Some t" using q by (simp add: unbind_def)
  moreover from assms(2) have "lookup q t2 = Some (Dir members)"
    by (auto simp: extractall_def dest!: modify_SomeD)
  ultimately show ?thesis by simp
qed

lemma walk_append: "walk (p @ q) n = map ((@) p) (walk q n)"
  by (induction q n rule: walk.induct) (auto simp: map_concat comp_def intro!: arg_cong [where f = concat])

lemma find_map_option: "find P (map f xs) = map_option f (find (\<lambda>x. P (f x)) xs)"
  by (induction xs) simp_all

lemma find_candidate_root_extracted:
  assumes "lookup q t = Some (Dir members)"
  shows "find_candidate_root marker1 marker2 t q =
           map_option ((@) q) (find_candidate_root marker1 marker2 (Dir members) [])"
proof -
  have "walk q (Dir members) = map ((@) q) (walk [] (Dir members))"
    using walk_append [of q "[]" "Dir members"] by simp
  moreover have "path_exists t (q @ r @ m) = path_exists (Dir members) (r @ m)" for r m
    using assms by (simp add: path_exists_def lookup_append)
  ultimately show ?thesis
    using assms
    by (simp add: find_candidate_root_def os_walk_def find_map_option del: walk.simps)
qed
section \<open>Facts about what a statement adds to the state\<close>

lemma grows_refl: "grows E G st st"
  by (simp add: grows_def)

lemma grows_trans:
  assumes "grows E G a b" and "grows E G b c"
  shows "grows E G a c"
proof -
  from assms obtain e1 e2 g1 g2 where
    "trace b = trace a @ e1" "list_all E e1" "trace c = trace b @ e2" "list_all E e2"
    "generated_audio b = generated_audio a @ g1" "list_all G g1"
    "generated_audio c = generated_audio b @ g2" "list_all G g2"
    and "voice_models c = voice_models a"
    by (auto simp: grows_def)
  then show ?thesis
    unfolding grows_def
    by (intro conjI exI [of _ "e1 @ e2"] exI [of _ "g1 @ g2"]) simp_all
qed

lemma grows_mono:
  assumes "grows E G a b" and "\<And>ev. E ev \<Longrightarrow> E' ev" and "\<And>g. G g \<Longrightarrow> G' g"
  shows "grows E' G' a b"
  using assms unfolding grows_def list_all_iff by blast

lemma grows_seq:
  assumes "grows E G st (state_of (m st))"
    and "\<And>x st1. m st = Return x st1 \<Longrightarrow> grows E G st1 (state_of (f x st1))"
  shows "grows E G st (state_of (seq m f st))"
proof (cases "m st")
  case (Return x st1)
  with assms(1) assms(2) [OF Return] show ?thesis
    by (auto simp: seq_def intro: grows_trans)
next
  case (Raise e st1)
  with assms(1) show ?thesis by (simp add: seq_def)
qed

lemma grows_try_finally:
  assumes "grows E G st (state_of (m st))"
    and "\<And>st1. grows E G st1 (state_of (h st1))"
  shows "grows E G st (state_of (try_finally m h st))"
proof -
  have "grows E G (state_of (m st)) (state_of (h (state_of (m st))))"
    by (rule assms(2))
  with assms(1) have "grows E G st (state_of (h (state_of (m st))))"
    by (rule grows_trans)
  then show ?thesis
    by (cases "m st"; cases "h (state_of (m st))") (simp_all add: try_finally_def)
qed

lemma grows_os_call: "grows E G st (state_of (os_call e f st))"
  by (simp add: os_call_def grows_def split: option.splits)

lemma grows_log: "E ev \<Longrightarrow> grows E G st (state_of (log ev st))"
  by (simp add: log_def grows_def)

lemma grows_library: "E ev \<Longrightarrow> grows E G st (state_of (library ev outcome st))"
  by (simp add: library_def log_def seq_def grows_def split: option.splits)

lemma grows_shutil_move: "grows E G st (state_of (shutil_move src dst st))"
  by (simp add: shutil_move_def Let_def grows_os_call grows_refl)

lemma grows_merge_items:
  "grows E G st (state_of (merge_items candidate_root target items st))"
proof (induction items arbitrary: st)
  case Nil
  show ?case by (simp add: grows_refl)
next
  case (Cons item items)
  let ?src = "candidate_root @ [item]" and ?dst = "target @ [item]"
  let ?step = "if isdir (fs st) ?src
      then (if \<not> path_exists (fs st) ?dst then shutil_move ?src ?dst st else Return () st)
      else shutil_move ?src ?dst st"
  have step: "grows E G st (state_of ?step)"
    by (simp add: grows_shutil_move grows_refl)
  show ?case
  proof (cases ?step)
    case (Return x st1)
    with step Cons.IH [of st1] show ?thesis
      by (auto simp: Let_def intro: grows_trans)
  next
    case (Raise e st1)
    with step show ?thesis by (auto simp: Let_def)
  qed
qed

lemma grows_urlretrieve:
  "E (Urlretrieve url p) \<Longrightarrow> grows E G st (state_of (urlretrieve env url p st))"
  unfolding urlretrieve_def
  by (rule grows_seq) (auto simp: grows_log grows_refl grows_os_call split: download.splits)

lemma grows_ZipFile: "grows E G st (state_of (ZipFile env st))"
  by (simp add: ZipFile_def grows_refl split: download.splits option.splits)

lemma grows_download_and_merge:
  assumes "E (Urlretrieve url (tmp_zip_path env))"
  shows "grows E G st (state_of (download_and_merge target url marker1 marker2 msg env st))"
  unfolding download_and_merge_def
  by (intro grows_seq grows_try_finally grows_os_call grows_urlretrieve assms grows_ZipFile)
    (auto simp: grows_refl grows_os_call grows_merge_items split: option.splits)

lemma grows_ensure_base_checkpoints_v1:
  assumes "\<And>u p. E (Urlretrieve u p)"
  shows "grows E G st (state_of (ensure_base_checkpoints_v1 env st))"
  unfolding ensure_base_checkpoints_v1_def
  by (auto simp: grows_refl assms intro!: grows_seq grows_download_and_merge)

lemma ensure_base_checkpoints_v1_value:
  "ensure_base_checkpoints_v1 env st = Return d st' \<Longrightarrow> d = base_dir"
  by (auto simp: ensure_base_checkpoints_v1_def seq_def split: if_splits result.splits)
section \<open>Properties of the bootstrap\<close>

text \<open>
  C1. After \<^verbatim>\<open>ensure_checkpoints\<close> has returned normally the three required paths
  should exist. The code does not achieve this: the merge loop skips a directory of
  the archive whose name exists in the target already (line 84), so a
  \<^verbatim>\<open>converter\<close> directory that an interrupted run left incomplete stays incomplete.
  With the well-formed archive and that state, the function returns normally and
  \<^verbatim>\<open>checkpoints_v2/converter/checkpoint.pth\<close> is still missing.
\<close>

theorem ensure_checkpoints_leaves_interrupted_incomplete:
  "returns_normally
     (ensure_checkpoints [''checkpoints_v2''] v2_archive_env (init_database interrupted_fs)) \<and>
   \<not> path_exists
       (fs (state_of
          (ensure_checkpoints [''checkpoints_v2''] v2_archive_env (init_database interrupted_fs))))
       [''checkpoints_v2'', ''converter'', ''checkpoint.pth''] \<and>
   [''checkpoints_v2'', ''converter'', ''checkpoint.pth'']
     \<in> set (required_paths [''checkpoints_v2''])"
  by code_simp

text \<open>
  The scan accepts an archive by the two marker files of the converter alone: with an
  archive that has them and lacks \<^verbatim>\<open>base_speakers/ses/en-newest.pth\<close> the function
  returns normally as well, on an empty working directory, and the third required
  path does not exist.
\<close>

lemma ensure_checkpoints_accepts_archive_without_ses:
  "returns_normally
     (ensure_checkpoints [''checkpoints_v2''] no_ses_archive_env (init_database empty_fs)) \<and>
   \<not> path_exists
       (fs (state_of
          (ensure_checkpoints [''checkpoints_v2''] no_ses_archive_env (init_database empty_fs))))
       [''checkpoints_v2'', ''base_speakers'', ''ses'', ''en-newest.pth'']"
  by code_simp

text \<open>
  C2. \<^verbatim>\<open>ensure_checkpoints\<close> first checks the three required paths; when all of
  them exist it returns at once: nothing is downloaded (the trace is as it was) and
  the file system is as it was, whatever the environment would have served.
\<close>

theorem ensure_checkpoints_present_noop:
  assumes "\<forall>p \<in> set (required_paths checkpoint_dir). path_exists (fs st) p"
  shows "ensure_checkpoints checkpoint_dir env st = Return () st"
  using assms by (simp add: ensure_checkpoints_def list_all_iff)

theorem ensure_checkpoints_present_noop_witness:
  "list_all (path_exists (fs (init_database complete_fs))) (required_paths [''checkpoints_v2'']) \<and>
   ensure_checkpoints [''checkpoints_v2''] v2_archive_env (init_database complete_fs)
     = Return () (init_database complete_fs)"
proof -
  have present: "list_all (path_exists (fs (init_database complete_fs)))
      (required_paths [''checkpoints_v2''])"
    by code_simp
  then have "\<forall>p \<in> set (required_paths [''checkpoints_v2'']).
      path_exists (fs (init_database complete_fs)) p"
    by (simp add: list_all_iff)
  from present ensure_checkpoints_present_noop [OF this, of v2_archive_env]
  show ?thesis by simp
qed

lemma create_then_write:
  assumes "create q (File c0) t = Some t1"
  shows "\<exists>t2. write_file q c t1 = Some t2"
proof -
  from assms have q: "q \<noteq> []" by (auto simp: create_def split: if_splits)
  from create_lookup_same [OF assms] have "lookup (butlast q @ [last q]) t1 = Some (File c0)"
    using q by simp
  from lookup_snocD [OF this] obtain es where
    "lookup (butlast q) t1 = Some (Dir es)" "map_of es (last q) = Some (File c0)" by blast
  then show ?thesis using q
    by (auto simp: write_file_def intro!: modify_Some)
qed

lemma create_then_extractall:
  assumes "create q (Dir []) t = Some t1"
  shows "\<exists>t2. extractall members q t1 = Some t2"
  using create_lookup_same [OF assms]
  by (auto simp: extractall_def intro!: modify_Some)

text \<open>
  When a required path is missing and the scan of the archive's own tree finds no
  candidate root, \<^verbatim>\<open>ensure_checkpoints\<close> raises and leaves the file system that
  \<^verbatim>\<open>os.makedirs\<close> left.
\<close>

lemma ensure_checkpoints_raises_without_candidate:
  assumes "\<not> list_all (path_exists (fs st)) (required_paths checkpoint_dir)"
    and "served env = Payload bytes (Some members)"
    and "find_candidate_root [''converter'', ''config.json''] [''converter'', ''checkpoint.pth'']
           (Dir members) [] = None"
  shows "\<exists>e st'. ensure_checkpoints checkpoint_dir env st = Raise e st' \<and>
            fs st' = (case makedirs checkpoint_dir (fs st) of None \<Rightarrow> fs st | Some t \<Rightarrow> t) \<and>
            (e = RuntimeError ''Downloaded checkpoints archive does not contain expected structure'' \<or>
             e = OSError ''makedirs'' \<or> e = OSError ''mkstemp'' \<or> e = OSError ''mkdtemp'')"
proof -
  let ?m1 = "[''converter'', ''config.json'']" and ?m2 = "[''converter'', ''checkpoint.pth'']"
  let ?msg = "''Downloaded checkpoints archive does not contain expected structure''"
  let ?zip = "tmp_zip_path env" and ?dir = "tmp_dir env"
  let ?E = "ensure_checkpoints checkpoint_dir env st"
  let ?goal = "\<exists>e st'. ?E = Raise e st' \<and>
      fs st' = (case makedirs checkpoint_dir (fs st) of None \<Rightarrow> fs st | Some t \<Rightarrow> t) \<and>
      (e = RuntimeError ?msg \<or> e = OSError ''makedirs'' \<or> e = OSError ''mkstemp'' \<or>
       e = OSError ''mkdtemp'')"
  note defs = ensure_checkpoints_def download_and_merge_def seq_def try_finally_def os_call_def
    urlretrieve_def ZipFile_def log_def rmtree_def unlink_def isfile_def path_exists_def
  show ?goal
  proof (cases "makedirs checkpoint_dir (fs st)")
    case None
    with assms(1) show ?thesis by (simp add: defs)
  next
    case (Some t0)
    show ?thesis
    proof (cases "create ?zip (File []) t0")
      case None
      with assms(1) Some show ?thesis by (simp add: defs)
    next
      case t1: (Some t1)
      from create_then_write [OF t1] obtain t2 where t2: "write_file ?zip bytes t1 = Some t2"
        by blast
      from write_file_lookup_same [OF t2] have zip: "lookup ?zip t2 = Some (File bytes)" .
      from create_write_unbind [OF t1 t2] have restored: "unbind ?zip t2 = Some t0" .
      show ?thesis
      proof (cases "create ?dir (Dir []) t2")
        case None
        with assms(1,2) Some t1 t2 zip restored show ?thesis by (simp add: defs)
      next
        case t3: (Some t3)
        from create_then_extractall [OF t3] obtain t4 where
          t4: "extractall members ?dir t3 = Some t4" by blast
        from create_extractall_unbind [OF t3 t4]
        have gone: "unbind ?dir t4 = Some t2" and tree: "lookup ?dir t4 = Some (Dir members)"
          by simp_all
        from find_candidate_root_extracted [OF tree] assms(3)
        have "find_candidate_root ?m1 ?m2 t4 ?dir = None" by simp
        with assms(1,2) Some t1 t2 zip restored t3 t4 gone show ?thesis by (simp add: defs)
      qed
    qed
  qed
qed
text \<open>
  C3. The candidate root is located by the scan of lines 70 to 76: the scan returns a
  directory exactly when it is the first directory of the walk below which both
  \<^verbatim>\<open>converter/config.json\<close> and \<^verbatim>\<open>converter/checkpoint.pth\<close> exist, and it returns
  none exactly when no directory of the walk has both. On the directory that holds the
  extracted archive, the directory it returns is the first such directory of the
  archive's own tree. When a required path is missing and no directory of the archive
  has both marker files, \<^verbatim>\<open>ensure_checkpoints\<close> raises, and the file system it leaves
  is the one right after \<^verbatim>\<open>os.makedirs(checkpoint_dir)\<close> (the one before the call when
  that failed): nothing is merged into the target directory, and the temporary file
  and directory are gone. The error is the \<^verbatim>\<open>RuntimeError\<close> of line 78 unless creating
  the target directory or a temporary name failed before.
\<close>

theorem ensure_checkpoints_locates_candidate_root:
  "(find_candidate_root [''converter'', ''config.json''] [''converter'', ''checkpoint.pth'']
      t tmp = Some candidate \<longleftrightarrow>
    (\<exists>i < length (os_walk t tmp).
       os_walk t tmp ! i = candidate \<and>
       path_exists t (candidate @ [''converter'', ''config.json'']) \<and>
       path_exists t (candidate @ [''converter'', ''checkpoint.pth'']) \<and>
       (\<forall>j < i. \<not> (path_exists t (os_walk t tmp ! j @ [''converter'', ''config.json'']) \<and>
                    path_exists t (os_walk t tmp ! j @ [''converter'', ''checkpoint.pth'']))))) \<and>
   (find_candidate_root [''converter'', ''config.json''] [''converter'', ''checkpoint.pth'']
      t tmp = None \<longleftrightarrow>
    (\<forall>d \<in> set (os_walk t tmp).
       \<not> (path_exists t (d @ [''converter'', ''config.json'']) \<and>
          path_exists t (d @ [''converter'', ''checkpoint.pth''])))) \<and>
   (lookup tmp t = Some (Dir members) \<longrightarrow>
      find_candidate_root [''converter'', ''config.json''] [''converter'', ''checkpoint.pth'']
        t tmp =
      map_option ((@) tmp)
        (find_candidate_root [''converter'', ''config.json''] [''converter'', ''checkpoint.pth'']
           (Dir members) [])) \<and>
   (\<not> list_all (path_exists (fs st)) (required_paths checkpoint_dir) \<and>
    served env = Payload bytes (Some members) \<and>
    (\<forall>d \<in> set (walk [] (Dir members)).
       \<not> (path_exists (Dir members) (d @ [''converter'', ''config.json'']) \<and>
          path_exists (Dir members) (d @ [''converter'', ''checkpoint.pth'']))) \<longrightarrow>
    (\<exists>e st'. ensure_checkpoints checkpoint_dir env st = Raise e st' \<and>
       fs st' = (case makedirs checkpoint_dir (fs st) of None \<Rightarrow> fs st | Some t \<Rightarrow> t) \<and>
       (e = RuntimeError ''Downloaded checkpoints archive does not contain expected structure'' \<or>
        e = OSError ''makedirs'' \<or> e = OSError ''mkstemp'' \<or> e = OSError ''mkdtemp'')))"
proof (intro conjI impI)
  show "find_candidate_root [''converter'', ''config.json''] [''converter'', ''checkpoint.pth'']
      t tmp = Some candidate \<longleftrightarrow>
    (\<exists>i < length (os_walk t tmp).
       os_walk t tmp ! i = candidate \<and>
       path_exists t (candidate @ [''converter'', ''config.json'']) \<and>
       path_exists t (candidate @ [''converter'', ''checkpoint.pth'']) \<and>
       (\<forall>j < i. \<not> (path_exists t (os_walk t tmp ! j @ [''converter'', ''config.json'']) \<and>
                    path_exists t (os_walk t tmp ! j @ [''converter'', ''checkpoint.pth'']))))"
    unfolding find_candidate_root_def find_Some_iff by blast
next
  show "find_candidate_root [''converter'', ''config.json''] [''converter'', ''checkpoint.pth'']
      t tmp = None \<longleftrightarrow>
    (\<forall>d \<in> set (os_walk t tmp).
       \<not> (path_exists t (d @ [''converter'', ''config.json'']) \<and>
          path_exists t (d @ [''converter'', ''checkpoint.pth''])))"
    unfolding find_candidate_root_def find_None_iff by blast
next
  assume "lookup tmp t = Some (Dir members)"
  then show "find_candidate_root [''converter'', ''config.json''] [''converter'', ''checkpoint.pth'']
        t tmp =
      map_option ((@) tmp)
        (find_candidate_root [''converter'', ''config.json''] [''converter'', ''checkpoint.pth'']
           (Dir members) [])"
    by (rule find_candidate_root_extracted)
next
  assume a: "\<not> list_all (path_exists (fs st)) (required_paths checkpoint_dir) \<and>
    served env = Payload bytes (Some members) \<and>
    (\<forall>d \<in> set (walk [] (Dir members)).
       \<not> (path_exists (Dir members) (d @ [''converter'', ''config.json'']) \<and>
          path_exists (Dir members) (d @ [''converter'', ''checkpoint.pth''])))"
  moreover have "os_walk (Dir members) [] = walk [] (Dir members)"
    by (simp add: os_walk_def del: walk.simps)
  ultimately have "find_candidate_root [''converter'', ''config.json''] [''converter'', ''checkpoint.pth'']
      (Dir members) [] = None"
    unfolding find_candidate_root_def find_None_iff by (simp del: walk.simps)
  with a show "\<exists>e st'. ensure_checkpoints checkpoint_dir env st = Raise e st' \<and>
       fs st' = (case makedirs checkpoint_dir (fs st) of None \<Rightarrow> fs st | Some t \<Rightarrow> t) \<and>
       (e = RuntimeError ''Downloaded checkpoints archive does not contain expected structure'' \<or>
        e = OSError ''makedirs'' \<or> e = OSError ''mkstemp'' \<or> e = OSError ''mkdtemp'')"
    by (intro ensure_checkpoints_raises_without_candidate) simp_all
qed

theorem ensure_checkpoints_locates_candidate_root_witness:
  "os_walk (Dir twin_members) [] =
     [[], [''old''], [''old'', ''converter''], [''new''], [''new'', ''converter'']] \<and>
   path_exists (Dir twin_members) ([''new''] @ [''converter'', ''config.json'']) \<and>
   path_exists (Dir twin_members) ([''new''] @ [''converter'', ''checkpoint.pth'']) \<and>
   find_candidate_root [''converter'', ''config.json''] [''converter'', ''checkpoint.pth'']
     (Dir twin_members) [] = Some [''old''] \<and>
   \<not> list_all (path_exists (fs (init_database empty_fs))) (required_paths [''checkpoints_v2'']) \<and>
   served broken_archive_env = Payload ''zip'' (Some broken_members) \<and>
   list_all (\<lambda>d. \<not> (path_exists (Dir broken_members) (d @ [''converter'', ''config.json'']) \<and>
                    path_exists (Dir broken_members) (d @ [''converter'', ''checkpoint.pth''])))
     (walk [] (Dir broken_members)) \<and>
   \<not> returns_normally
       (ensure_checkpoints [''checkpoints_v2''] broken_archive_env (init_database empty_fs)) \<and>
   fs (state_of
         (ensure_checkpoints [''checkpoints_v2''] broken_archive_env (init_database empty_fs))) =
     Dir [(''tmp'', Dir []), (''checkpoints_v2'', Dir [])] \<and>
   fs (state_of
         (ensure_checkpoints [''checkpoints_v2''] twin_archive_env (init_database empty_fs))) =
     Dir [(''tmp'', Dir []),
          (''checkpoints_v2'',
           Dir [(''converter'',
                 Dir [(''config.json'', File ''cfg1''), (''checkpoint.pth'', File ''ckpt1'')])])]"
proof -
  let ?m1 = "[''converter'', ''config.json'']" and ?m2 = "[''converter'', ''checkpoint.pth'']"
  have w: "os_walk (Dir twin_members) [] =
     [[], [''old''], [''old'', ''converter''], [''new''], [''new'', ''converter'']]"
    by code_simp
  have new: "path_exists (Dir twin_members) ([''new''] @ ?m1)"
    "path_exists (Dir twin_members) ([''new''] @ ?m2)"
    by code_simp+
  have old: "path_exists (Dir twin_members) ([''old''] @ ?m1)"
    "path_exists (Dir twin_members) ([''old''] @ ?m2)"
    "\<not> path_exists (Dir twin_members) ([] @ ?m1)"
    by code_simp+
  have "\<exists>i < length (os_walk (Dir twin_members) []).
       os_walk (Dir twin_members) [] ! i = [''old''] \<and>
       path_exists (Dir twin_members) ([''old''] @ ?m1) \<and>
       path_exists (Dir twin_members) ([''old''] @ ?m2) \<and>
       (\<forall>j < i. \<not> (path_exists (Dir twin_members) (os_walk (Dir twin_members) [] ! j @ ?m1) \<and>
                    path_exists (Dir twin_members) (os_walk (Dir twin_members) [] ! j @ ?m2)))"
    using old by (intro exI [of _ 1]) (simp add: w)
  with ensure_checkpoints_locates_candidate_root
    [of "Dir twin_members" "[]" "[''old'']" broken_members "init_database empty_fs"
      "[''checkpoints_v2'']" broken_archive_env "''zip''"]
  have chosen: "find_candidate_root ?m1 ?m2 (Dir twin_members) [] = Some [''old'']"
    by blast
  have a: "\<not> list_all (path_exists (fs (init_database empty_fs)))
      (required_paths [''checkpoints_v2''])"
    by code_simp
  have b: "served broken_archive_env = Payload ''zip'' (Some broken_members)"
    by (simp add: broken_archive_env_def)
  have c: "list_all (\<lambda>d. \<not> (path_exists (Dir broken_members) (d @ ?m1) \<and>
                    path_exists (Dir broken_members) (d @ ?m2)))
     (walk [] (Dir broken_members))"
    by code_simp
  have d: "(case makedirs [''checkpoints_v2''] (fs (init_database empty_fs)) of
        None \<Rightarrow> fs (init_database empty_fs) | Some t \<Rightarrow> t) =
      Dir [(''tmp'', Dir []), (''checkpoints_v2'', Dir [])]"
    by code_simp
  from c have c': "\<forall>d \<in> set (walk [] (Dir broken_members)).
       \<not> (path_exists (Dir broken_members) (d @ ?m1) \<and>
          path_exists (Dir broken_members) (d @ ?m2))"
    by (simp add: list_all_iff)
  from ensure_checkpoints_locates_candidate_root
    [of "Dir twin_members" "[]" "[''old'']" broken_members "init_database empty_fs"
      "[''checkpoints_v2'']" broken_archive_env "''zip''"] a b c'
  obtain e st' where
    "ensure_checkpoints [''checkpoints_v2''] broken_archive_env (init_database empty_fs) =
       Raise e st'"
    "fs st' = (case makedirs [''checkpoints_v2''] (fs (init_database empty_fs)) of
        None \<Rightarrow> fs (init_database empty_fs) | Some t \<Rightarrow> t)"
    by blast
  then have raised: "\<not> returns_normally
       (ensure_checkpoints [''checkpoints_v2''] broken_archive_env (init_database empty_fs))"
    "fs (state_of
         (ensure_checkpoints [''checkpoints_v2''] broken_archive_env (init_database empty_fs))) =
     Dir [(''tmp'', Dir []), (''checkpoints_v2'', Dir [])]"
    using d by simp_all
  have merged: "fs (state_of
         (ensure_checkpoints [''checkpoints_v2''] twin_archive_env (init_database empty_fs))) =
     Dir [(''tmp'', Dir []),
          (''checkpoints_v2'',
           Dir [(''converter'',
                 Dir [(''config.json'', File ''cfg1''), (''checkpoint.pth'', File ''ckpt1'')])])]"
    by code_simp
  from w new chosen a b c raised merged show ?thesis by simp
qed
section \<open>Properties of the upload\<close>

lemma same_length_no_prefix:
  "length p = length q \<Longrightarrow> p \<noteq> q \<Longrightarrow> \<not> prefix p q"
  by (auto simp: prefix_def)

lemma write_file_keeps_file:
  assumes "write_file q c t = Some t'" and "length p = length q" and "isfile t p"
  shows "isfile t' p"
proof (cases "p = q")
  case True
  with write_file_lookup_same [OF assms(1)] show ?thesis by (simp add: isfile_def)
next
  case False
  with assms(2) have "\<not> prefix p q" "\<not> prefix q p"
    by (simp_all add: same_length_no_prefix)
  from write_file_lookup_other [OF assms(1) this] assms(3) show ?thesis
    by (simp add: isfile_def)
qed

lemma write_file_isdir:
  assumes "write_file q c t = Some t'" and "length p = length q" and "isdir t' p"
  shows "isdir t p"
proof (cases "p = q")
  case True
  with write_file_lookup_same [OF assms(1)] assms(3) show ?thesis by (simp add: isdir_def)
next
  case False
  with assms(2) have "\<not> prefix p q" "\<not> prefix q p"
    by (simp_all add: same_length_no_prefix)
  from write_file_lookup_other [OF assms(1) this] assms(3) show ?thesis
    by (simp add: isdir_def)
qed

lemma unlink_file:
  assumes "isfile t p" and "p \<noteq> []"
  shows "\<exists>t'. unlink p t = Some t' \<and> lookup p t' = None \<and>
           (\<forall>q. length q = length p \<longrightarrow> q \<noteq> p \<longrightarrow> lookup q t' = lookup q t)"
proof -
  from assms obtain c where c: "lookup p t = Some (File c)"
    by (auto simp: isfile_def split: option.splits node.splits)
  from unbind_Some [OF c assms(2)] obtain t' where t': "unbind p t = Some t'" by blast
  from unbind_lookup_below [OF t', of "[]"] have "lookup p t' = None" by simp
  moreover have "lookup q t' = lookup q t" if "length q = length p" "q \<noteq> p" for q
    using unbind_lookup_other [OF t', of q] that same_length_no_prefix [of q p]
      same_length_no_prefix [of p q] by auto
  ultimately show ?thesis using t' assms(1) by (simp add: unlink_def)
qed

lemma upload_try_Return:
  assumes "upload_try voice_id name description vf se env st1 = Return b st2"
    and "isfile (fs st1) vf" and "length vf = length se"
  shows "path_exists (fs st2) vf \<and> path_exists (fs st2) se \<and>
         voice_models st2 = voice_models st1 @
           [\<lparr>vm_id = voice_id, vm_name = name, vm_description = description,
             vm_file_path = vf, vm_se_file_path = se, vm_created_at = up_now env\<rparr>] \<and>
         b = Uploaded voice_id name description ''Voice uploaded and processed successfully''"
  using assms
  apply (auto simp: upload_try_def seq_def library_def log_def torch_save_def os_call_def
      insert_voice_def Let_def path_exists_def
      split: option.splits save_outcome.splits result.splits if_splits
      dest: write_file_lookup_same)
  using write_file_keeps_file [of se "''embedding''" "fs st1" _ vf]
  apply (auto simp: isfile_def split: option.splits node.splits)
  done

lemma upload_try_Raise:
  assumes "upload_try voice_id name description vf se env st1 = Raise e st2"
    and "isfile (fs st1) vf" and "length vf = length se"
  shows "isfile (fs st2) vf \<and> voice_models st2 = voice_models st1 \<and>
         generated_audio st2 = generated_audio st1 \<and>
         (isdir (fs st2) se \<longrightarrow> isdir (fs st1) se)"
  using assms
  apply (auto simp: upload_try_def seq_def library_def log_def torch_save_def os_call_def
      insert_voice_def Let_def
      split: option.splits save_outcome.splits result.splits if_splits
      dest: write_file_keeps_file write_file_isdir)
  done

lemma upload_except_removes:
  assumes "upload_except e vf se st2 = (resp, st3)"
    and "isfile (fs st2) vf" and "vf \<noteq> []" and "length vf = length se"
  shows "\<not> isfile (fs st3) vf \<and> \<not> isfile (fs st3) se \<and>
         voice_models st3 = voice_models st2 \<and> generated_audio st3 = generated_audio st2 \<and>
         status_code resp = 500 \<and>
         (\<not> isdir (fs st2) se \<longrightarrow>
            resp = HTTPException 500 (''Voice processing failed: '' @ str e))"
proof -
  from unlink_file [OF assms(2,3)] obtain t1 where
    t1: "unlink vf (fs st2) = Some t1" "lookup vf t1 = None"
      "\<forall>q. length q = length vf \<longrightarrow> q \<noteq> vf \<longrightarrow> lookup q t1 = lookup q (fs st2)"
    by blast
  from assms(2) have ex: "path_exists (fs st2) vf"
    by (auto simp: isfile_def path_exists_def split: option.splits)
  have se1: "lookup se t1 = (if se = vf then None else lookup se (fs st2))"
    using t1(2,3) assms(4) by auto
  show ?thesis
  proof (cases "lookup se t1")
    case None
    with assms(1) ex t1 show ?thesis
      by (auto simp: upload_except_def seq_def os_call_def path_exists_def isfile_def)
  next
    case (Some n)
    with se1 have ne: "se \<noteq> vf" and n: "lookup se (fs st2) = Some n"
      by (auto split: if_splits)
    from assms(3,4) have "se \<noteq> []" by auto
    show ?thesis
    proof (cases n)
      case (File c)
      with Some have "isfile t1 se" by (simp add: isfile_def)
      from unlink_file [OF this \<open>se \<noteq> []\<close>] obtain t2 where
        t2: "unlink se t1 = Some t2" "lookup se t2 = None"
          "\<forall>q. length q = length se \<longrightarrow> q \<noteq> se \<longrightarrow> lookup q t2 = lookup q t1"
        by blast
      from t2(3) ne assms(4) t1(2) have "lookup vf t2 = None" by auto
      with assms(1) ex t1 t2 Some show ?thesis
        by (auto simp: upload_except_def seq_def os_call_def path_exists_def isfile_def)
    next
      case (Dir es)
      with Some have "\<not> isfile t1 se" by (simp add: isfile_def)
      moreover from Dir n have "isdir (fs st2) se" by (simp add: isdir_def)
      ultimately show ?thesis using assms(1) ex t1 Some
        by (auto simp: upload_except_def seq_def os_call_def path_exists_def isfile_def
            unlink_def)
    qed
  qed
qed

text \<open>
  The outcomes of an upload once the sample has been saved. When the body of the
  \<^verbatim>\<open>try\<close> raises (the extraction of the embedding, the save of the embedding or the
  insert), no file is left at the path of the sample and none at the path of the
  embedding, \<^verbatim>\<open>voice_models\<close> is as it was, and the answer has status 500; it is the
  \<^verbatim>\<open>HTTPException\<close> of line 271 unless the path of the embedding was a directory
  before the request. A success is answered only when both paths exist and the row is
  in the table.
\<close>

lemma upload_voice_outcome:
  assumes "upload_voice file name description env st = (resp, st')"
    and "prefix ''audio/'' (content_type file)"
    and "write_file (stored_voice_file file env) (file_data file) (fs st) \<noteq> None"
  shows "case resp of
           OK b \<Rightarrow>
             path_exists (fs st') (stored_voice_file file env) \<and>
             path_exists (fs st') (stored_se_file env) \<and>
             voice_models st' = voice_models st @
               [\<lparr>vm_id = up_uuid4 env, vm_name = name, vm_description = description,
                 vm_file_path = stored_voice_file file env,
                 vm_se_file_path = stored_se_file env, vm_created_at = up_now env\<rparr>]
         | _ \<Rightarrow>
             \<not> isfile (fs st') (stored_voice_file file env) \<and>
             \<not> isfile (fs st') (stored_se_file env) \<and>
             voice_models st' = voice_models st \<and>
             status_code resp = 500 \<and>
             (\<not> isdir (fs st) (stored_se_file env) \<longrightarrow>
                (\<exists>e. resp = HTTPException 500 (''Voice processing failed: '' @ str e)))"
proof -
  let ?vf = "stored_voice_file file env" and ?se = "stored_se_file env"
  from assms(3) obtain t where t: "write_file ?vf (file_data file) (fs st) = Some t" by auto
  have len: "length ?vf = length ?se" and ne: "?vf \<noteq> []"
    by (simp_all add: stored_voice_file_def stored_se_file_def)
  from write_file_lookup_same [OF t] have isf: "isfile (fs (st\<lparr>fs := t\<rparr>)) ?vf"
    by (simp add: isfile_def)
  have dir: "isdir t ?se \<Longrightarrow> isdir (fs st) ?se"
    using write_file_isdir [OF t] len by simp
  show ?thesis
  proof (cases "upload_try (up_uuid4 env) name description ?vf ?se env (st\<lparr>fs := t\<rparr>)")
    case (Return b st2)
    with assms(1,2) t have "resp = OK b" "st' = st2"
      by (simp_all add: upload_voice_def)
    with upload_try_Return [OF Return isf len] show ?thesis by simp
  next
    case (Raise e st2)
    with assms(1,2) t have ex: "upload_except e ?vf ?se st2 = (resp, st')"
      by (simp add: upload_voice_def)
    from upload_try_Raise [OF Raise isf len]
    have st2: "isfile (fs st2) ?vf" "voice_models st2 = voice_models st"
      "isdir (fs st2) ?se \<longrightarrow> isdir t ?se" by simp_all
    from upload_except_removes [OF ex st2(1) ne len] st2(2,3) dir
    show ?thesis by (cases resp) auto
  qed
qed

lemma upload_voice_outcome_example:
  "prefix ''audio/'' (content_type sample_upload) \<and>
   write_file (stored_voice_file sample_upload failing_upload_env) (file_data sample_upload)
     (fs (init_database service_fs)) \<noteq> None \<and>
   fst (upload_voice sample_upload ''Ann'' None failing_upload_env (init_database service_fs))
     = HTTPException 500 ''Voice processing failed: no speech found'' \<and>
   \<not> isfile (fs (snd (upload_voice sample_upload ''Ann'' None failing_upload_env
                        (init_database service_fs))))
       (stored_voice_file sample_upload failing_upload_env) \<and>
   \<not> isfile (fs (snd (upload_voice sample_upload ''Ann'' None failing_upload_env
                        (init_database service_fs))))
       (stored_se_file failing_upload_env) \<and>
   voice_models (snd (upload_voice sample_upload ''Ann'' None failing_upload_env
                        (init_database service_fs))) = []"
proof -
  have a: "prefix ''audio/'' (content_type sample_upload)"
    by code_simp
  have b: "write_file (stored_voice_file sample_upload failing_upload_env)
      (file_data sample_upload) (fs (init_database service_fs)) \<noteq> None"
    by code_simp
  have c: "fst (upload_voice sample_upload ''Ann'' None failing_upload_env
      (init_database service_fs)) = HTTPException 500 ''Voice processing failed: no speech found''"
    by code_simp
  have d: "voice_models (init_database service_fs) = []"
    by (simp add: init_database_def)
  have e: "upload_voice sample_upload ''Ann'' None failing_upload_env (init_database service_fs) =
      (fst (upload_voice sample_upload ''Ann'' None failing_upload_env (init_database service_fs)),
       snd (upload_voice sample_upload ''Ann'' None failing_upload_env (init_database service_fs)))"
    by simp
  from upload_voice_outcome [OF e a b] a b c d
  show ?thesis by simp
qed

text \<open>
  C9. An upload should answer a success only when the sample, the embedding and the
  row all exist. The code has a case where it does not: the sample is stored under
  the suffix of the uploaded file name (lines 227 and 228) and the embedding under
  \<^verbatim>\<open>.pth\<close> (line 229), so for a file name with the suffix \<^verbatim>\<open>.pth\<close> the two paths
  are one path, and \<^verbatim>\<open>torch.save\<close> (line 244) writes the embedding over the sample.
  The upload of \<^verbatim>\<open>voice.pth\<close> is answered with a success, the row names that one path
  in both columns, the directory of the voices holds that one file, and the file holds
  the embedding: the sample is gone.
\<close>

theorem upload_voice_pth_overwrites_sample:
  "fst (upload_voice pth_upload ''Ann'' None good_upload_env (init_database service_fs)) =
     OK (Uploaded ''0b5c'' ''Ann'' None ''Voice uploaded and processed successfully'') \<and>
   stored_voice_file pth_upload good_upload_env = stored_se_file good_upload_env \<and>
   map (\<lambda>row. (vm_file_path row, vm_se_file_path row))
     (voice_models
        (snd (upload_voice pth_upload ''Ann'' None good_upload_env (init_database service_fs)))) =
     [([''voices'', ''0b5c.pth''], [''voices'', ''0b5c.pth''])] \<and>
   listdir
     (fs (snd (upload_voice pth_upload ''Ann'' None good_upload_env (init_database service_fs))))
     VOICES_DIR = [''0b5c.pth''] \<and>
   lookup [''voices'', ''0b5c.pth'']
     (fs (snd (upload_voice pth_upload ''Ann'' None good_upload_env (init_database service_fs)))) =
     Some (File ''embedding'') \<and>
   file_data pth_upload = ''RIFF''"
  by code_simp

text \<open>
  C10. A file whose content type does not start with \<^verbatim>\<open>audio/\<close> is rejected with
  status 400 and the state is the one before the request: no file is written and no
  row inserted.
\<close>

theorem upload_voice_rejects_non_audio:
  assumes "\<not> prefix ''audio/'' (content_type file)"
  shows "upload_voice file name description env st =
           (HTTPException 400 ''File must be an audio file'', st)"
  using assms by (simp add: upload_voice_def)

theorem upload_voice_rejects_non_audio_witness:
  "\<not> prefix ''audio/'' (content_type image_upload) \<and>
   upload_voice image_upload ''Ann'' None good_upload_env (init_database service_fs) =
     (HTTPException 400 ''File must be an audio file'', init_database service_fs)"
proof -
  have a: "\<not> prefix ''audio/'' (content_type image_upload)"
    by code_simp
  from a upload_voice_rejects_non_audio [OF a] show ?thesis by simp
qed
section \<open>Properties of the synthesis and of the service\<close>

lemma grows_insert_audio:
  "G row \<Longrightarrow> grows E G st (state_of (insert_audio outcome row st))"
  by (simp add: insert_audio_def grows_def split: option.splits)

lemma grows_synthesize_with:
  assumes "\<And>ev. E ev"
  shows "grows E (\<lambda>g. ga_voice_id g = req_voice_id request) st
           (state_of (synthesize_with CHECKPOINT_DIR request se_file_path env base_cfg base_ckpt st))"
  unfolding synthesize_with_def Let_def
  by (intro grows_seq grows_library grows_os_call grows_insert_audio assms)
    (simp_all add: grows_refl)

lemma grows_select_base_tts:
  assumes "\<And>ev. E ev"
  shows "grows E G st (state_of (select_base_tts CHECKPOINT_DIR env st))"
  unfolding select_base_tts_def Let_def
  by (auto simp: grows_refl assms intro!: grows_seq grows_ensure_base_checkpoints_v1)

lemma grows_synthesize_try:
  "grows (\<lambda>_. True) (\<lambda>g. ga_voice_id g = req_voice_id request) st
           (state_of (synthesize_try CHECKPOINT_DIR request se_file_path env st))"
  unfolding synthesize_try_def
  by (intro grows_seq grows_library grows_os_call grows_select_base_tts)
    (auto simp: grows_synthesize_with)

lemma synthesize_with_trace:
  fixes CHECKPOINT_DIR request se_file_path env base_cfg base_ckpt st
  defines "R \<equiv> synthesize_with CHECKPOINT_DIR request se_file_path env base_cfg base_ckpt st"
    and "calls \<equiv> synthesis_calls CHECKPOINT_DIR request se_file_path env base_cfg base_ckpt"
  shows "\<exists>evs. trace (state_of R) = trace st @ evs \<and> prefix evs calls \<and>
           (returns_normally R \<longrightarrow> evs = calls)"
  unfolding R_def calls_def synthesize_with_def synthesis_calls_def Let_def
  by (auto simp: seq_def library_def log_def os_call_def insert_audio_def
      split: option.splits)

lemma upload_voice_tables:
  assumes "upload_voice file name description env st = (resp, st')"
  shows "generated_audio st' = generated_audio st \<and>
         (voice_models st' = voice_models st \<or>
          (\<exists>row. voice_models st' = voice_models st @ [row]))"
proof (cases "prefix ''audio/'' (content_type file)")
  case False
  with assms show ?thesis by (simp add: upload_voice_def)
next
  case True
  let ?vf = "stored_voice_file file env" and ?se = "stored_se_file env"
  show ?thesis
  proof (cases "write_file ?vf (file_data file) (fs st)")
    case None
    with assms True show ?thesis by (simp add: upload_voice_def)
  next
    case (Some t)
    have len: "length ?vf = length ?se" and ne: "?vf \<noteq> []"
      by (simp_all add: stored_voice_file_def stored_se_file_def)
    from write_file_lookup_same [OF Some] have isf: "isfile (fs (st\<lparr>fs := t\<rparr>)) ?vf"
      by (simp add: isfile_def)
    show ?thesis
    proof (cases "upload_try (up_uuid4 env) name description ?vf ?se env (st\<lparr>fs := t\<rparr>)")
      case (Return b st2)
      with assms True Some have "st' = st2" by (simp add: upload_voice_def)
      moreover from Return have "generated_audio st2 = generated_audio st"
        by (auto simp: upload_try_def seq_def library_def log_def torch_save_def os_call_def
            insert_voice_def Let_def
            split: option.splits save_outcome.splits result.splits if_splits)
      ultimately show ?thesis using upload_try_Return [OF Return isf len] by simp
    next
      case (Raise e st2)
      with assms True Some have ex: "upload_except e ?vf ?se st2 = (resp, st')"
        by (simp add: upload_voice_def)
      from upload_try_Raise [OF Raise isf len] upload_except_removes [OF ex _ ne len]
      show ?thesis by simp
    qed
  qed
qed

lemma synthesize_speech_tables:
  assumes "synthesize_speech CHECKPOINT_DIR request env st = (resp, st')"
  shows "voice_models st' = voice_models st \<and>
         (\<exists>gs. generated_audio st' = generated_audio st @ gs \<and>
            (\<forall>g \<in> set gs. ga_voice_id g = req_voice_id request \<and>
               list_ex (\<lambda>v. vm_id v = ga_voice_id g) (voice_models st)))"
proof (cases "sy_connect env")
  case (Some m)
  with assms show ?thesis by (simp add: synthesize_speech_def)
next
  case None
  show ?thesis
  proof (cases "find (\<lambda>row. vm_id row = req_voice_id request) (voice_models st)")
    case no_row: None
    with assms None show ?thesis by (simp add: synthesize_speech_def)
  next
    case (Some result)
    then have known: "list_ex (\<lambda>v. vm_id v = req_voice_id request) (voice_models st)"
      unfolding find_Some_iff list_ex_iff by (metis nth_mem)
    let ?R = "synthesize_try CHECKPOINT_DIR request (vm_se_file_path result) env st"
    from assms None Some have "st' = state_of ?R"
      by (cases ?R) (simp_all add: synthesize_speech_def)
    with grows_synthesize_try [of request st CHECKPOINT_DIR "vm_se_file_path result" env] known
    show ?thesis by (auto simp: grows_def list_all_iff)
  qed
qed

lemma handle_tables:
  assumes "handle CHECKPOINT_DIR r st = (resp, st')"
  shows "prefix (voice_models st) (voice_models st') \<and>
         (\<not> is_upload r \<longrightarrow> voice_models st' = voice_models st) \<and>
         (\<exists>gs. generated_audio st' = generated_audio st @ gs \<and>
            (\<forall>g \<in> set gs. list_ex (\<lambda>v. vm_id v = ga_voice_id g) (voice_models st)))"
proof (cases r)
  case Root
  with assms show ?thesis by (auto simp: root_def)
next
  case (UploadVoice f name description env)
  with assms upload_voice_tables [of f name description env st resp st']
  show ?thesis by auto
next
  case ListVoices
  with assms show ?thesis by (auto simp: list_voices_def)
next
  case (SynthesizeSpeech request env)
  with assms synthesize_speech_tables [of CHECKPOINT_DIR request env st resp st']
  show ?thesis by auto
next
  case (GetAudio audio_id)
  with assms show ?thesis
    by (auto simp: get_audio_def split: option.splits if_splits)
next
  case GetGenerationHistory
  with assms show ?thesis by (auto simp: get_generation_history_def Let_def)
qed

lemma handle_refs_resolve:
  assumes "refs_resolve st"
  shows "refs_resolve (snd (handle CHECKPOINT_DIR r st))"
proof -
  obtain resp st' where h: "handle CHECKPOINT_DIR r st = (resp, st')"
    by (cases "handle CHECKPOINT_DIR r st")
  from handle_tables [OF h] obtain gs where
    vm: "prefix (voice_models st) (voice_models st')"
    and ga: "generated_audio st' = generated_audio st @ gs"
      "\<forall>g \<in> set gs. list_ex (\<lambda>v. vm_id v = ga_voice_id g) (voice_models st)"
    by blast
  from vm have sub: "set (voice_models st) \<subseteq> set (voice_models st')"
    by (auto simp: prefix_def)
  from assms ga sub have "refs_resolve st'"
    unfolding refs_resolve_def list_all_iff list_ex_iff by (auto; blast)
  with h show ?thesis by simp
qed

lemma serve_refs_resolve:
  "refs_resolve st \<Longrightarrow> refs_resolve (serve CHECKPOINT_DIR requests st)"
  by (induction requests arbitrary: st) (simp_all add: handle_refs_resolve)

lemma serve_voice_models:
  "prefix (voice_models st) (voice_models (serve CHECKPOINT_DIR requests st)) \<and>
   (list_all (\<lambda>r. \<not> is_upload r) requests \<longrightarrow>
      voice_models (serve CHECKPOINT_DIR requests st) = voice_models st)"
proof (induction requests arbitrary: st)
  case Nil
  show ?case by simp
next
  case (Cons r rs)
  obtain resp st' where h: "handle CHECKPOINT_DIR r st = (resp, st')"
    by (cases "handle CHECKPOINT_DIR r st")
  from handle_tables [OF h] Cons.IH [of st'] h show ?case
    by (auto intro: prefix_order.trans)
qed
lemma find_prefix:
  assumes "prefix xs ys" and "find P xs = Some x"
  shows "find P ys = Some x"
proof -
  from assms(1) obtain zs where "ys = xs @ zs" by (auto simp: prefix_def)
  moreover from assms(2) have "find P (xs @ zs) = Some x"
    by (induction xs) (auto split: if_splits)
  ultimately show ?thesis by simp
qed

text \<open>
  C4. \<^verbatim>\<open>synthesize_speech\<close> looks the voice up before anything else. When no row
  has the identifier it answers 404 and the state is the one before the request. The
  rows that a request adds to \<^verbatim>\<open>generated_audio\<close> carry the identifier of the request,
  and a row of \<^verbatim>\<open>voice_models\<close> has that identifier in the state before the insert.
  So the references of all rows resolve in every state that the service reaches from
  a new database, and the service keeps them resolved from any state where they are.
\<close>

theorem generated_audio_voice_exists_at_creation:
  "(sy_connect env = None \<and>
    find (\<lambda>row. vm_id row = req_voice_id request) (voice_models st) = None \<longrightarrow>
      synthesize_speech CHECKPOINT_DIR request env st =
        (HTTPException 404 ''Voice model not found'', st)) \<and>
   (\<exists>gs. generated_audio (snd (synthesize_speech CHECKPOINT_DIR request env st)) =
            generated_audio st @ gs \<and>
          list_all (\<lambda>g. ga_voice_id g = req_voice_id request \<and>
                         list_ex (\<lambda>v. vm_id v = ga_voice_id g) (voice_models st)) gs) \<and>
   refs_resolve (serve CHECKPOINT_DIR requests (init_database t)) \<and>
   (refs_resolve st \<longrightarrow> refs_resolve (serve CHECKPOINT_DIR requests st))"
proof -
  obtain resp st' where s: "synthesize_speech CHECKPOINT_DIR request env st = (resp, st')"
    by (cases "synthesize_speech CHECKPOINT_DIR request env st")
  have "refs_resolve (init_database t)"
    by (simp add: refs_resolve_def init_database_def)
  with synthesize_speech_tables [OF s] s show ?thesis
    by (auto simp: synthesize_speech_def list_all_iff serve_refs_resolve)
qed

theorem generated_audio_voice_exists_at_creation_witness:
  "sy_connect good_synth_env = None \<and>
   find (\<lambda>row. vm_id row = req_voice_id stranger_request)
     (voice_models (init_database service_fs)) = None \<and>
   synthesize_speech [''checkpoints_v2''] stranger_request good_synth_env
       (init_database service_fs) =
     (HTTPException 404 ''Voice model not found'', init_database service_fs) \<and>
   refs_resolve (serve [''checkpoints_v2''] session (init_database service_fs)) \<and>
   length (generated_audio (serve [''checkpoints_v2''] session (init_database service_fs))) = 1"
proof -
  have a: "sy_connect good_synth_env = None"
    by code_simp
  have b: "find (\<lambda>row. vm_id row = req_voice_id stranger_request)
     (voice_models (init_database service_fs)) = None"
    by code_simp
  have c: "length (generated_audio (serve [''checkpoints_v2''] session
      (init_database service_fs))) = 1"
    by code_simp
  from generated_audio_voice_exists_at_creation
    [of good_synth_env stranger_request "init_database service_fs" "[''checkpoints_v2'']"
      session service_fs] a b c
  show ?thesis by simp
qed

text \<open>
  C5. No request changes or removes a row of \<^verbatim>\<open>voice_models\<close>: after any sequence
  of requests the table starts with the rows it had, in their order and with all
  their fields; the row that an identifier selects stays the row it selects; and a
  sequence without an upload leaves the table as it is.
\<close>

theorem voice_models_rows_are_kept:
  "prefix (voice_models st) (voice_models (serve CHECKPOINT_DIR requests st)) \<and>
   (list_all (\<lambda>r. \<not> is_upload r) requests \<longrightarrow>
      voice_models (serve CHECKPOINT_DIR requests st) = voice_models st) \<and>
   (find (\<lambda>v. vm_id v = voice_id) (voice_models st) = Some row \<longrightarrow>
      find (\<lambda>v. vm_id v = voice_id) (voice_models (serve CHECKPOINT_DIR requests st)) =
        Some row)"
  using serve_voice_models [of st CHECKPOINT_DIR requests]
  by (auto intro: find_prefix)

theorem voice_models_rows_are_kept_witness:
  "find (\<lambda>v. vm_id v = ''0b5c'')
      (voice_models (serve [''checkpoints_v2''] (take 1 session) (init_database service_fs))) =
     Some \<lparr>vm_id = ''0b5c'', vm_name = ''Ann'', vm_description = None,
           vm_file_path = [''voices'', ''0b5c.wav''],
           vm_se_file_path = [''voices'', ''0b5c.pth''],
           vm_created_at = ''2024-05-01T10:00:00''\<rparr> \<and>
   list_all (\<lambda>r. \<not> is_upload r) (drop 1 session) \<and>
   voice_models (serve [''checkpoints_v2''] (drop 1 session)
      (serve [''checkpoints_v2''] (take 1 session) (init_database service_fs))) =
     voice_models (serve [''checkpoints_v2''] (take 1 session) (init_database service_fs)) \<and>
   find (\<lambda>v. vm_id v = ''0b5c'')
      (voice_models (serve [''checkpoints_v2''] (drop 1 session)
         (serve [''checkpoints_v2''] (take 1 session) (init_database service_fs)))) =
     Some \<lparr>vm_id = ''0b5c'', vm_name = ''Ann'', vm_description = None,
           vm_file_path = [''voices'', ''0b5c.wav''],
           vm_se_file_path = [''voices'', ''0b5c.pth''],
           vm_created_at = ''2024-05-01T10:00:00''\<rparr>"
proof -
  have a: "find (\<lambda>v. vm_id v = ''0b5c'')
      (voice_models (serve [''checkpoints_v2''] (take 1 session) (init_database service_fs))) =
     Some \<lparr>vm_id = ''0b5c'', vm_name = ''Ann'', vm_description = None,
           vm_file_path = [''voices'', ''0b5c.wav''],
           vm_se_file_path = [''voices'', ''0b5c.pth''],
           vm_created_at = ''2024-05-01T10:00:00''\<rparr>"
    by code_simp
  have b: "list_all (\<lambda>r. \<not> is_upload r) (drop 1 session)"
    by code_simp
  from voice_models_rows_are_kept
    [of "serve [''checkpoints_v2''] (take 1 session) (init_database service_fs)"
      "[''checkpoints_v2'']" "drop 1 session" "''0b5c''"] a b
  show ?thesis by simp
qed


lemma select_base_tts_v2:
  assumes "path_exists (fs st) (CHECKPOINT_DIR @ [''base_speakers'', ''EN_V2'', ''config.json''])"
    and "path_exists (fs st) (CHECKPOINT_DIR @ [''base_speakers'', ''EN_V2'', ''checkpoint.pth''])"
  shows "select_base_tts CHECKPOINT_DIR env st =
           Return (CHECKPOINT_DIR @ [''base_speakers'', ''EN_V2'', ''config.json''],
                   CHECKPOINT_DIR @ [''base_speakers'', ''EN_V2'', ''checkpoint.pth'']) st"
  using assms by (simp add: select_base_tts_def)

lemma select_base_tts_v1:
  assumes "\<not> (path_exists (fs st) (CHECKPOINT_DIR @ [''base_speakers'', ''EN_V2'', ''config.json'']) \<and>
      path_exists (fs st) (CHECKPOINT_DIR @ [''base_speakers'', ''EN_V2'', ''checkpoint.pth'']))"
  shows "select_base_tts CHECKPOINT_DIR env st =
           (case ensure_base_checkpoints_v1 env st of
              Return d s \<Rightarrow> Return (d @ [''base_speakers'', ''EN'', ''config.json''],
                                   d @ [''base_speakers'', ''EN'', ''checkpoint.pth'']) s
            | Raise e s \<Rightarrow> Raise e s)"
  using assms by (auto simp: select_base_tts_def Let_def seq_def split: result.splits)

lemma synthesize_try_trace:
  fixes CHECKPOINT_DIR request se_file_path env st
  defines "R \<equiv> synthesize_try CHECKPOINT_DIR request se_file_path env st"
    and "v2_cfg \<equiv> CHECKPOINT_DIR @ [''base_speakers'', ''EN_V2'', ''config.json'']"
    and "v2_ckpt \<equiv> CHECKPOINT_DIR @ [''base_speakers'', ''EN_V2'', ''checkpoint.pth'']"
    and "v1_cfg \<equiv> base_dir @ [''base_speakers'', ''EN'', ''config.json'']"
    and "v1_ckpt \<equiv> base_dir @ [''base_speakers'', ''EN'', ''checkpoint.pth'']"
  shows "\<exists>urls evs cfg ckpt.
           trace (state_of R) = trace st @ Torch_load se_file_path # urls @ evs \<and>
           list_all is_download urls \<and>
           prefix evs (synthesis_calls CHECKPOINT_DIR request se_file_path env cfg ckpt) \<and>
           (returns_normally R \<longrightarrow>
              evs = synthesis_calls CHECKPOINT_DIR request se_file_path env cfg ckpt) \<and>
           (case create (sy_tmp_path env) (File []) (fs st) of
              None \<Rightarrow> urls = [] \<and> evs = []
            | Some t \<Rightarrow>
                if path_exists t v2_cfg \<and> path_exists t v2_ckpt
                then urls = [] \<and> (evs \<noteq> [] \<longrightarrow> cfg = v2_cfg \<and> ckpt = v2_ckpt)
                else evs \<noteq> [] \<longrightarrow> cfg = v1_cfg \<and> ckpt = v1_ckpt \<and>
                  (\<exists>s'. ensure_base_checkpoints_v1 (sy_fetch env)
                          (st\<lparr>trace := trace st @ [Torch_load se_file_path], fs := t\<rparr>) =
                        Return base_dir s'))"
proof (cases "sy_load_target env")
  case (Some m)
  then have "R = Raise (LibraryError m) (st\<lparr>trace := trace st @ [Torch_load se_file_path]\<rparr>)"
    by (simp add: R_def synthesize_try_def seq_def library_def log_def)
  then show ?thesis
    by - (rule exI [of _ "[]"], simp split: option.splits)
next
  case None
  let ?st1 = "st\<lparr>trace := trace st @ [Torch_load se_file_path]\<rparr>"
  show ?thesis
  proof (cases "create (sy_tmp_path env) (File []) (fs st)")
    case no: None
    with None have "R = Raise (OSError ''mkstemp'') ?st1"
      by (simp add: R_def synthesize_try_def seq_def library_def log_def os_call_def)
    with no show ?thesis
      by - (rule exI [of _ "[]"], simp)
  next
    case (Some t)
    let ?st2 = "st\<lparr>trace := trace st @ [Torch_load se_file_path], fs := t\<rparr>"
    from None Some have R: "R = seq (select_base_tts CHECKPOINT_DIR (sy_fetch env))
        (\<lambda>(base_cfg, base_ckpt).
          synthesize_with CHECKPOINT_DIR request se_file_path env base_cfg base_ckpt) ?st2"
      by (simp add: R_def synthesize_try_def seq_def library_def log_def os_call_def)
    show ?thesis
    proof (cases "path_exists t v2_cfg \<and> path_exists t v2_ckpt")
      case True
      then have R2: "R = synthesize_with CHECKPOINT_DIR request se_file_path env v2_cfg v2_ckpt ?st2"
        by (simp add: R select_base_tts_v2 seq_def v2_cfg_def v2_ckpt_def)
      from synthesize_with_trace [of CHECKPOINT_DIR request se_file_path env v2_cfg v2_ckpt ?st2]
      obtain evs where "trace (state_of R) = trace ?st2 @ evs"
        "prefix evs (synthesis_calls CHECKPOINT_DIR request se_file_path env v2_cfg v2_ckpt)"
        "returns_normally R \<longrightarrow>
           evs = synthesis_calls CHECKPOINT_DIR request se_file_path env v2_cfg v2_ckpt"
        unfolding R2 by blast
      with True Some show ?thesis
        by - (rule exI [of _ "[]"], rule exI [of _ evs], rule exI [of _ v2_cfg], rule exI [of _ v2_ckpt], simp)
    next
      case False
      let ?B = "ensure_base_checkpoints_v1 (sy_fetch env) ?st2"
      from grows_ensure_base_checkpoints_v1 [of is_download "\<lambda>_. False" ?st2 "sy_fetch env"]
      obtain urls where urls: "trace (state_of ?B) = trace ?st2 @ urls" "list_all is_download urls"
        by (auto simp: grows_def is_download_def)
      show ?thesis
      proof (cases ?B)
        case (Raise e s')
        with False have "R = Raise e s'"
          by (simp add: R select_base_tts_v1 seq_def v2_cfg_def v2_ckpt_def)
        with urls Raise False Some show ?thesis
          by - (rule exI [of _ urls], rule exI [of _ "[]"], auto)
      next
        case (Return d s')
        with ensure_base_checkpoints_v1_value [OF Return] have B: "?B = Return base_dir s'"
          by simp
        with False have R2: "R = synthesize_with CHECKPOINT_DIR request se_file_path env
            v1_cfg v1_ckpt s'"
          by (simp add: R select_base_tts_v1 seq_def v2_cfg_def v2_ckpt_def v1_cfg_def
              v1_ckpt_def)
        from synthesize_with_trace [of CHECKPOINT_DIR request se_file_path env v1_cfg v1_ckpt s']
        obtain evs where "trace (state_of R) = trace s' @ evs"
          "prefix evs (synthesis_calls CHECKPOINT_DIR request se_file_path env v1_cfg v1_ckpt)"
          "returns_normally R \<longrightarrow>
             evs = synthesis_calls CHECKPOINT_DIR request se_file_path env v1_cfg v1_ckpt"
          unfolding R2 by blast
        with urls B False Some show ?thesis
          by - (rule exI [of _ urls], rule exI [of _ evs], rule exI [of _ v1_cfg], rule exI [of _ v1_ckpt], auto)
      qed
    qed
  qed
qed

lemma synthesize_speech_cases:
  assumes "synthesize_speech CHECKPOINT_DIR request env st = (resp, st')"
  obtains (rejected) "st' = st" "\<forall>b. resp \<noteq> OK b"
  | (tried) row where
      "find (\<lambda>row. vm_id row = req_voice_id request) (voice_models st) = Some row"
      "st' = state_of (synthesize_try CHECKPOINT_DIR request (vm_se_file_path row) env st)"
      "(\<exists>b. resp = OK b) \<longleftrightarrow>
         returns_normally (synthesize_try CHECKPOINT_DIR request (vm_se_file_path row) env st)"
proof (cases "sy_connect env")
  case (Some m)
  with assms rejected show ?thesis by (auto simp: synthesize_speech_def)
next
  case None
  show ?thesis
  proof (cases "find (\<lambda>row. vm_id row = req_voice_id request) (voice_models st)")
    case no_row: None
    with assms None rejected show ?thesis by (auto simp: synthesize_speech_def)
  next
    case (Some row)
    with assms None tried [OF Some] show ?thesis
      by (cases "synthesize_try CHECKPOINT_DIR request (vm_se_file_path row) env st")
        (auto simp: synthesize_speech_def)
  qed
qed

lemma synthesis_calls_members:
  "BaseSpeakerTTS p \<in> set (synthesis_calls CHECKPOINT_DIR request se env cfg ckpt) \<longleftrightarrow> p = cfg"
  "Load_ckpt p \<in> set (synthesis_calls CHECKPOINT_DIR request se env cfg ckpt) \<longleftrightarrow> p = ckpt"
  "Torch_load p \<in> set (synthesis_calls CHECKPOINT_DIR request se env cfg ckpt) \<longleftrightarrow>
     p = source_se_path CHECKPOINT_DIR (req_accent request)"
  "Convert a s t out \<in> set (synthesis_calls CHECKPOINT_DIR request se env cfg ckpt) \<longleftrightarrow>
     a = sy_tmp_path env \<and> s = Loaded (source_se_path CHECKPOINT_DIR (req_accent request)) \<and>
     t = Loaded se \<and> out = AUDIO_DIR @ [sy_uuid4 env @ ''.wav'']"
  "list_all (\<lambda>ev. \<not> is_download ev) (synthesis_calls CHECKPOINT_DIR request se env cfg ckpt)"
  by (auto simp: synthesis_calls_def is_download_def)

lemma download_is_no_call:
  assumes "list_all is_download urls"
  shows "BaseSpeakerTTS p \<notin> set urls" "Load_ckpt p \<notin> set urls" "Torch_load p \<notin> set urls"
    "Convert a s t out \<notin> set urls"
  using assms by (auto simp: list_all_iff is_download_def)

text \<open>
  C6. The base model of a synthesis. The trace of a request shows what was passed to
  the base TTS model. When both files of \<^verbatim>\<open>EN_V2\<close> exist under the checkpoint
  directory, every construction of the base model gets the V2 configuration, every
  load gets the V2 checkpoint, and nothing is downloaded. Otherwise every construction
  gets the V1 configuration under \<^verbatim>\<open>checkpoints\<close>, after
  \<^verbatim>\<open>ensure_base_checkpoints_v1\<close> has returned that directory, and every load gets
  the V1 checkpoint. A request that succeeds has constructed and loaded the base
  model. The temporary file of the request, which \<^verbatim>\<open>tempfile\<close> names, is not one of
  the two files of \<^verbatim>\<open>EN_V2\<close>.
\<close>

theorem synthesize_speech_selects_base_model:
  assumes "synthesize_speech CHECKPOINT_DIR request env st = (resp, st')"
    and "sy_tmp_path env \<noteq> CHECKPOINT_DIR @ [''base_speakers'', ''EN_V2'', ''config.json'']"
    and "sy_tmp_path env \<noteq> CHECKPOINT_DIR @ [''base_speakers'', ''EN_V2'', ''checkpoint.pth'']"
  shows "\<exists>evs. trace st' = trace st @ evs \<and>
     (if path_exists (fs st) (CHECKPOINT_DIR @ [''base_speakers'', ''EN_V2'', ''config.json'']) \<and>
         path_exists (fs st) (CHECKPOINT_DIR @ [''base_speakers'', ''EN_V2'', ''checkpoint.pth''])
      then list_all (\<lambda>ev. \<not> is_download ev) evs \<and>
        (\<forall>p. BaseSpeakerTTS p \<in> set evs \<longrightarrow>
           p = CHECKPOINT_DIR @ [''base_speakers'', ''EN_V2'', ''config.json'']) \<and>
        (\<forall>p. Load_ckpt p \<in> set evs \<longrightarrow>
           p = CHECKPOINT_DIR @ [''base_speakers'', ''EN_V2'', ''checkpoint.pth''])
      else
        (\<forall>p. BaseSpeakerTTS p \<in> set evs \<longrightarrow>
           p = [''checkpoints'', ''base_speakers'', ''EN'', ''config.json''] \<and>
           (\<exists>row t s'.
              find (\<lambda>row. vm_id row = req_voice_id request) (voice_models st) = Some row \<and>
              create (sy_tmp_path env) (File []) (fs st) = Some t \<and>
              ensure_base_checkpoints_v1 (sy_fetch env)
                (st\<lparr>trace := trace st @ [Torch_load (vm_se_file_path row)], fs := t\<rparr>) =
              Return [''checkpoints''] s')) \<and>
        (\<forall>p. Load_ckpt p \<in> set evs \<longrightarrow>
           p = [''checkpoints'', ''base_speakers'', ''EN'', ''checkpoint.pth''])) \<and>
     ((\<exists>b. resp = OK b) \<longrightarrow>
        (\<exists>p q. BaseSpeakerTTS p \<in> set evs \<and> Load_ckpt q \<in> set evs))"
  using assms(1)
proof (cases rule: synthesize_speech_cases)
  case rejected
  then show ?thesis by simp
next
  case (tried row)
  let ?se = "vm_se_file_path row"
  let ?v2_cfg = "CHECKPOINT_DIR @ [''base_speakers'', ''EN_V2'', ''config.json'']"
  let ?v2_ckpt = "CHECKPOINT_DIR @ [''base_speakers'', ''EN_V2'', ''checkpoint.pth'']"
  let ?R = "synthesize_try CHECKPOINT_DIR request ?se env st"
  from synthesize_try_trace [of CHECKPOINT_DIR request ?se env st]
  obtain urls evs cfg ckpt where
    tr: "trace (state_of ?R) = trace st @ Torch_load ?se # urls @ evs"
    and urls: "list_all is_download urls"
    and pre: "prefix evs (synthesis_calls CHECKPOINT_DIR request ?se env cfg ckpt)"
    and ok: "returns_normally ?R \<longrightarrow>
        evs = synthesis_calls CHECKPOINT_DIR request ?se env cfg ckpt"
    and sel: "case create (sy_tmp_path env) (File []) (fs st) of
        None \<Rightarrow> urls = [] \<and> evs = []
      | Some t \<Rightarrow>
          if path_exists t ?v2_cfg \<and> path_exists t ?v2_ckpt
          then urls = [] \<and> (evs \<noteq> [] \<longrightarrow> cfg = ?v2_cfg \<and> ckpt = ?v2_ckpt)
          else evs \<noteq> [] \<longrightarrow>
            cfg = base_dir @ [''base_speakers'', ''EN'', ''config.json''] \<and>
            ckpt = base_dir @ [''base_speakers'', ''EN'', ''checkpoint.pth''] \<and>
            (\<exists>s'. ensure_base_checkpoints_v1 (sy_fetch env)
                    (st\<lparr>trace := trace st @ [Torch_load ?se], fs := t\<rparr>) =
                  Return base_dir s')"
    by blast
  from pre have sub: "set evs \<subseteq> set (synthesis_calls CHECKPOINT_DIR request ?se env cfg ckpt)"
    by (rule set_mono_prefix)
  from pre have nodl: "list_all (\<lambda>ev. \<not> is_download ev) evs"
    using synthesis_calls_members(5) [of CHECKPOINT_DIR request ?se env cfg ckpt]
    by (auto simp: list_all_iff dest: set_mono_prefix)
  have base: "BaseSpeakerTTS p \<in> set (Torch_load ?se # urls @ evs) \<Longrightarrow> p = cfg \<and> evs \<noteq> []"
    and load: "Load_ckpt p \<in> set (Torch_load ?se # urls @ evs) \<Longrightarrow> p = ckpt \<and> evs \<noteq> []" for p
    using sub download_is_no_call [OF urls] synthesis_calls_members(1,2)
    by auto
  have same: "path_exists t ?v2_cfg = path_exists (fs st) ?v2_cfg"
    "path_exists t ?v2_ckpt = path_exists (fs st) ?v2_ckpt"
    if "create (sy_tmp_path env) (File []) (fs st) = Some t" for t
    using create_file_path_exists [OF that] assms(2,3) by auto
  show ?thesis
  proof (rule exI [of _ "Torch_load ?se # urls @ evs"], intro conjI)
    show "trace st' = trace st @ Torch_load ?se # urls @ evs"
      using tried(2) tr by simp
  next
    show "(\<exists>b. resp = OK b) \<longrightarrow>
        (\<exists>p q. BaseSpeakerTTS p \<in> set (Torch_load ?se # urls @ evs) \<and>
               Load_ckpt q \<in> set (Torch_load ?se # urls @ evs))"
      using tried(3) ok by (auto simp: synthesis_calls_def)
  next
    show "if path_exists (fs st) ?v2_cfg \<and> path_exists (fs st) ?v2_ckpt
      then list_all (\<lambda>ev. \<not> is_download ev) (Torch_load ?se # urls @ evs) \<and>
        (\<forall>p. BaseSpeakerTTS p \<in> set (Torch_load ?se # urls @ evs) \<longrightarrow> p = ?v2_cfg) \<and>
        (\<forall>p. Load_ckpt p \<in> set (Torch_load ?se # urls @ evs) \<longrightarrow> p = ?v2_ckpt)
      else
        (\<forall>p. BaseSpeakerTTS p \<in> set (Torch_load ?se # urls @ evs) \<longrightarrow>
           p = [''checkpoints'', ''base_speakers'', ''EN'', ''config.json''] \<and>
           (\<exists>row t s'.
              find (\<lambda>row. vm_id row = req_voice_id request) (voice_models st) = Some row \<and>
              create (sy_tmp_path env) (File []) (fs st) = Some t \<and>
              ensure_base_checkpoints_v1 (sy_fetch env)
                (st\<lparr>trace := trace st @ [Torch_load (vm_se_file_path row)], fs := t\<rparr>) =
              Return [''checkpoints''] s')) \<and>
        (\<forall>p. Load_ckpt p \<in> set (Torch_load ?se # urls @ evs) \<longrightarrow>
           p = [''checkpoints'', ''base_speakers'', ''EN'', ''checkpoint.pth''])"
    proof (cases "create (sy_tmp_path env) (File []) (fs st)")
      case None
      with sel have "urls = []" "evs = []" by simp_all
      then show ?thesis by (simp add: is_download_def)
    next
      case (Some t)
      show ?thesis
      proof (cases "path_exists (fs st) ?v2_cfg \<and> path_exists (fs st) ?v2_ckpt")
        case True
        with sel Some same [OF Some] have "urls = []" "evs \<noteq> [] \<longrightarrow> cfg = ?v2_cfg \<and> ckpt = ?v2_ckpt"
          by simp_all
        with True nodl base load show ?thesis
          by (auto simp: is_download_def)
      next
        case False
        with sel Some same [OF Some] have v1: "evs \<noteq> [] \<longrightarrow>
            cfg = base_dir @ [''base_speakers'', ''EN'', ''config.json''] \<and>
            ckpt = base_dir @ [''base_speakers'', ''EN'', ''checkpoint.pth''] \<and>
            (\<exists>s'. ensure_base_checkpoints_v1 (sy_fetch env)
                    (st\<lparr>trace := trace st @ [Torch_load ?se], fs := t\<rparr>) =
                  Return base_dir s')"
          by auto
        have "p = [''checkpoints'', ''base_speakers'', ''EN'', ''config.json''] \<and>
           (\<exists>row t s'.
              find (\<lambda>row. vm_id row = req_voice_id request) (voice_models st) = Some row \<and>
              create (sy_tmp_path env) (File []) (fs st) = Some t \<and>
              ensure_base_checkpoints_v1 (sy_fetch env)
                (st\<lparr>trace := trace st @ [Torch_load (vm_se_file_path row)], fs := t\<rparr>) =
              Return [''checkpoints''] s')"
          if "BaseSpeakerTTS p \<in> set (Torch_load ?se # urls @ evs)" for p
          using base [OF that] v1 tried(1) Some by (auto simp: base_dir_def)
        moreover have "p = [''checkpoints'', ''base_speakers'', ''EN'', ''checkpoint.pth'']"
          if "Load_ckpt p \<in> set (Torch_load ?se # urls @ evs)" for p
          using load [OF that] v1 by (auto simp: base_dir_def)
        ultimately show ?thesis using False by (simp only: if_False) blast
      qed
    qed
  qed
qed

theorem synthesize_speech_selects_base_model_witness:
  "sy_tmp_path good_synth_env \<noteq> [''checkpoints_v2'', ''base_speakers'', ''EN_V2'', ''config.json''] \<and>
   sy_tmp_path good_synth_env \<noteq> [''checkpoints_v2'', ''base_speakers'', ''EN_V2'', ''checkpoint.pth''] \<and>
   path_exists (fs (voice_uploaded service_fs_v2))
     [''checkpoints_v2'', ''base_speakers'', ''EN_V2'', ''config.json''] \<and>
   path_exists (fs (voice_uploaded service_fs_v2))
     [''checkpoints_v2'', ''base_speakers'', ''EN_V2'', ''checkpoint.pth''] \<and>
   (\<exists>evs. trace (snd (synthesize_speech [''checkpoints_v2''] french_request good_synth_env
                        (voice_uploaded service_fs_v2))) =
            trace (voice_uploaded service_fs_v2) @ evs \<and>
          list_all (\<lambda>ev. \<not> is_download ev) evs \<and>
          BaseSpeakerTTS [''checkpoints_v2'', ''base_speakers'', ''EN_V2'', ''config.json'']
            \<in> set evs \<and>
          Load_ckpt [''checkpoints_v2'', ''base_speakers'', ''EN_V2'', ''checkpoint.pth'']
            \<in> set evs) \<and>
   \<not> path_exists (fs (voice_uploaded service_fs))
     [''checkpoints_v2'', ''base_speakers'', ''EN_V2'', ''config.json''] \<and>
   (\<exists>evs. trace (snd (synthesize_speech [''checkpoints_v2''] french_request good_synth_env
                        (voice_uploaded service_fs))) =
            trace (voice_uploaded service_fs) @ evs \<and>
          BaseSpeakerTTS [''checkpoints'', ''base_speakers'', ''EN'', ''config.json'']
            \<in> set evs \<and>
          Load_ckpt [''checkpoints'', ''base_speakers'', ''EN'', ''checkpoint.pth'']
            \<in> set evs)"
proof -
  let ?cd = "[''checkpoints_v2'']"
  let ?v2 = "synthesize_speech ?cd french_request good_synth_env (voice_uploaded service_fs_v2)"
  let ?v1 = "synthesize_speech ?cd french_request good_synth_env (voice_uploaded service_fs)"
  have tmp: "sy_tmp_path good_synth_env \<noteq> ?cd @ [''base_speakers'', ''EN_V2'', ''config.json'']"
    "sy_tmp_path good_synth_env \<noteq> ?cd @ [''base_speakers'', ''EN_V2'', ''checkpoint.pth'']"
    by code_simp+
  have v2: "path_exists (fs (voice_uploaded service_fs_v2))
      (?cd @ [''base_speakers'', ''EN_V2'', ''config.json''])"
    "path_exists (fs (voice_uploaded service_fs_v2))
      (?cd @ [''base_speakers'', ''EN_V2'', ''checkpoint.pth''])"
    by code_simp+
  have v1: "\<not> path_exists (fs (voice_uploaded service_fs))
      (?cd @ [''base_speakers'', ''EN_V2'', ''config.json''])"
    by code_simp
  have ok: "fst ?v2 = OK (Synthesized ''77aa'' ''0b5c'' ''Bonjour''
       [''audio_files'', ''77aa.wav''] ''Speech synthesized successfully'')"
    "fst ?v1 = OK (Synthesized ''77aa'' ''0b5c'' ''Bonjour''
       [''audio_files'', ''77aa.wav''] ''Speech synthesized successfully'')"
    by code_simp+
  have e2: "?v2 = (fst ?v2, snd ?v2)" and e1: "?v1 = (fst ?v1, snd ?v1)"
    by simp_all
  from synthesize_speech_selects_base_model [OF e2 tmp] v2 ok(1)
  have "\<exists>evs. trace (snd ?v2) = trace (voice_uploaded service_fs_v2) @ evs \<and>
          list_all (\<lambda>ev. \<not> is_download ev) evs \<and>
          BaseSpeakerTTS [''checkpoints_v2'', ''base_speakers'', ''EN_V2'', ''config.json'']
            \<in> set evs \<and>
          Load_ckpt [''checkpoints_v2'', ''base_speakers'', ''EN_V2'', ''checkpoint.pth'']
            \<in> set evs"
    by auto
  moreover from synthesize_speech_selects_base_model [OF e1 tmp] v1 ok(2)
  have "\<exists>evs. trace (snd ?v1) = trace (voice_uploaded service_fs) @ evs \<and>
          BaseSpeakerTTS [''checkpoints'', ''base_speakers'', ''EN'', ''config.json'']
            \<in> set evs \<and>
          Load_ckpt [''checkpoints'', ''base_speakers'', ''EN'', ''checkpoint.pth'']
            \<in> set evs"
    by auto
  ultimately show ?thesis using tmp v2 v1 by simp
qed

lemma synthesize_speech_source_embedding:
  assumes "synthesize_speech CHECKPOINT_DIR request env st = (resp, st')"
  shows "\<exists>evs. trace st' = trace st @ evs \<and>
     (\<forall>a s t out. Convert a s t out \<in> set evs \<longrightarrow>
        s = Loaded (source_se_path CHECKPOINT_DIR (req_accent request))) \<and>
     (\<forall>p. Torch_load p \<in> set evs \<longrightarrow>
        p = source_se_path CHECKPOINT_DIR (req_accent request) \<or>
        (\<exists>row \<in> set (voice_models st).
           vm_id row = req_voice_id request \<and> p = vm_se_file_path row)) \<and>
     ((\<exists>b. resp = OK b) \<longrightarrow>
        Torch_load (source_se_path CHECKPOINT_DIR (req_accent request)) \<in> set evs \<and>
        (\<exists>a t out. Convert a (Loaded (source_se_path CHECKPOINT_DIR (req_accent request))) t out
           \<in> set evs))"
  using assms
proof (cases rule: synthesize_speech_cases)
  case rejected
  then show ?thesis by simp
next
  case (tried row)
  let ?se = "vm_se_file_path row"
  let ?R = "synthesize_try CHECKPOINT_DIR request ?se env st"
  from synthesize_try_trace [of CHECKPOINT_DIR request ?se env st]
  obtain urls evs cfg ckpt where
    tr: "trace (state_of ?R) = trace st @ Torch_load ?se # urls @ evs"
    and urls: "list_all is_download urls"
    and pre: "prefix evs (synthesis_calls CHECKPOINT_DIR request ?se env cfg ckpt)"
    and ok: "returns_normally ?R \<longrightarrow>
        evs = synthesis_calls CHECKPOINT_DIR request ?se env cfg ckpt"
    by blast
  from pre have sub: "set evs \<subseteq> set (synthesis_calls CHECKPOINT_DIR request ?se env cfg ckpt)"
    by (rule set_mono_prefix)
  from tried(1) have row: "row \<in> set (voice_models st)" "vm_id row = req_voice_id request"
    unfolding find_Some_iff by (auto intro: nth_mem)
  show ?thesis
  proof (rule exI [of _ "Torch_load ?se # urls @ evs"], intro conjI allI impI)
    show "trace st' = trace st @ Torch_load ?se # urls @ evs"
      using tried(2) tr by simp
  next
    fix a s t out
    assume "Convert a s t out \<in> set (Torch_load ?se # urls @ evs)"
    with sub download_is_no_call(4) [OF urls] synthesis_calls_members(4)
    show "s = Loaded (source_se_path CHECKPOINT_DIR (req_accent request))"
      by auto
  next
    fix p
    assume "Torch_load p \<in> set (Torch_load ?se # urls @ evs)"
    with sub download_is_no_call(3) [OF urls] synthesis_calls_members(3) row
    show "p = source_se_path CHECKPOINT_DIR (req_accent request) \<or>
        (\<exists>row \<in> set (voice_models st).
           vm_id row = req_voice_id request \<and> p = vm_se_file_path row)"
      by auto
  next
    assume "\<exists>b. resp = OK b"
    with tried(3) ok
    have "evs = synthesis_calls CHECKPOINT_DIR request ?se env cfg ckpt" by simp
    then show "Torch_load (source_se_path CHECKPOINT_DIR (req_accent request))
        \<in> set (Torch_load ?se # urls @ evs)"
      and "\<exists>a t out. Convert a (Loaded (source_se_path CHECKPOINT_DIR (req_accent request))) t out
           \<in> set (Torch_load ?se # urls @ evs)"
      by (auto simp: synthesis_calls_def)
  qed
qed

text \<open>
  C7. For an accent that is a key of \<^verbatim>\<open>ACCENT_TO_SES_FILE\<close>, with file \<open>f\<close>: the
  source embedding of every conversion of the request was loaded from
  \<^verbatim>\<open>CHECKPOINT_DIR/base_speakers/ses/f\<close>; the only other embedding that the request
  loads is the one of the voice; and a request that succeeds has loaded that file and
  converted with it.
\<close>

theorem synthesize_speech_known_accent:
  assumes "map_of ACCENT_TO_SES_FILE (req_accent request) = Some f"
    and "synthesize_speech CHECKPOINT_DIR request env st = (resp, st')"
  shows "\<exists>evs. trace st' = trace st @ evs \<and>
     (\<forall>a s t out. Convert a s t out \<in> set evs \<longrightarrow>
        s = Loaded (CHECKPOINT_DIR @ [''base_speakers'', ''ses'', f])) \<and>
     (\<forall>p. Torch_load p \<in> set evs \<longrightarrow>
        p = CHECKPOINT_DIR @ [''base_speakers'', ''ses'', f] \<or>
        (\<exists>row \<in> set (voice_models st).
           vm_id row = req_voice_id request \<and> p = vm_se_file_path row)) \<and>
     ((\<exists>b. resp = OK b) \<longrightarrow>
        Torch_load (CHECKPOINT_DIR @ [''base_speakers'', ''ses'', f]) \<in> set evs \<and>
        (\<exists>a t out. Convert a (Loaded (CHECKPOINT_DIR @ [''base_speakers'', ''ses'', f])) t out
           \<in> set evs))"
proof -
  from assms(1) have "source_se_path CHECKPOINT_DIR (req_accent request) =
      CHECKPOINT_DIR @ [''base_speakers'', ''ses'', f]"
    by (simp add: source_se_path_def ses_file_def)
  with synthesize_speech_source_embedding [OF assms(2)] show ?thesis by simp
qed

theorem synthesize_speech_known_accent_witness:
  "map_of ACCENT_TO_SES_FILE (req_accent french_request) = Some ''fr.pth'' \<and>
   (\<exists>evs. trace (snd (synthesize_speech [''checkpoints_v2''] french_request good_synth_env
                        (voice_uploaded service_fs_v2))) =
            trace (voice_uploaded service_fs_v2) @ evs \<and>
          Torch_load [''checkpoints_v2'', ''base_speakers'', ''ses'', ''fr.pth''] \<in> set evs \<and>
          (\<exists>a t out. Convert a (Loaded [''checkpoints_v2'', ''base_speakers'', ''ses'', ''fr.pth''])
                       t out \<in> set evs))"
proof -
  let ?r = "synthesize_speech [''checkpoints_v2''] french_request good_synth_env
      (voice_uploaded service_fs_v2)"
  have key: "map_of ACCENT_TO_SES_FILE (req_accent french_request) = Some ''fr.pth''"
    by code_simp
  have ok: "fst ?r = OK (Synthesized ''77aa'' ''0b5c'' ''Bonjour''
       [''audio_files'', ''77aa.wav''] ''Speech synthesized successfully'')"
    by code_simp
  have e: "?r = (fst ?r, snd ?r)"
    by simp
  from synthesize_speech_known_accent [OF key e] ok
  have "\<exists>evs. trace (snd ?r) = trace (voice_uploaded service_fs_v2) @ evs \<and>
          Torch_load [''checkpoints_v2'', ''base_speakers'', ''ses'', ''fr.pth''] \<in> set evs \<and>
          (\<exists>a t out. Convert a (Loaded [''checkpoints_v2'', ''base_speakers'', ''ses'', ''fr.pth''])
                       t out \<in> set evs)"
    by auto
  with key show ?thesis by simp
qed

lemma synthesize_with_accent:
  fixes request :: TTSRequest and accent' :: string
  defines "request' \<equiv> request\<lparr>req_accent := accent'\<rparr>"
  assumes "source_se_path CHECKPOINT_DIR (req_accent request) = source_se_path CHECKPOINT_DIR accent'"
  shows "case synthesize_with CHECKPOINT_DIR request se env cfg ckpt st of
           Return b s \<Rightarrow>
             (\<exists>s'. synthesize_with CHECKPOINT_DIR request' se env cfg ckpt st = Return b s')
         | Raise e s \<Rightarrow>
             synthesize_with CHECKPOINT_DIR request' se env cfg ckpt st = Raise e s"
  using assms(2) unfolding request'_def synthesize_with_def Let_def
  by (auto simp: seq_def library_def log_def os_call_def insert_audio_def
      split: option.splits result.splits)

lemma synthesize_try_accent:
  fixes request :: TTSRequest and accent' :: string
  defines "request' \<equiv> request\<lparr>req_accent := accent'\<rparr>"
  assumes "source_se_path CHECKPOINT_DIR (req_accent request) = source_se_path CHECKPOINT_DIR accent'"
  shows "case synthesize_try CHECKPOINT_DIR request se env st of
           Return b s \<Rightarrow>
             (\<exists>s'. synthesize_try CHECKPOINT_DIR request' se env st = Return b s')
         | Raise e s \<Rightarrow>
             synthesize_try CHECKPOINT_DIR request' se env st = Raise e s"
proof -
  have w: "case synthesize_with CHECKPOINT_DIR request se env cfg ckpt s0 of
           Return b s \<Rightarrow>
             (\<exists>s'. synthesize_with CHECKPOINT_DIR request' se env cfg ckpt s0 = Return b s')
         | Raise e s \<Rightarrow>
             synthesize_with CHECKPOINT_DIR request' se env cfg ckpt s0 = Raise e s"
    for cfg ckpt s0
    unfolding request'_def by (rule synthesize_with_accent [OF assms(2)])
  show ?thesis
  proof (cases "library (Torch_load se) (sy_load_target env) st")
    case (Raise e s1)
    then show ?thesis by (simp add: synthesize_try_def seq_def)
  next
    case r1: (Return u1 s1)
    show ?thesis
    proof (cases "os_call (OSError ''mkstemp'') (create (sy_tmp_path env) (File [])) s1")
      case (Raise e s2)
      with r1 show ?thesis by (simp add: synthesize_try_def seq_def)
    next
      case r2: (Return u2 s2)
      show ?thesis
      proof (cases "select_base_tts CHECKPOINT_DIR (sy_fetch env) s2")
        case (Raise e s3)
        with r1 r2 show ?thesis by (simp add: synthesize_try_def seq_def)
      next
        case (Return base s3)
        with r1 r2 w [of "fst base" "snd base" s3] show ?thesis
          by (auto simp: synthesize_try_def seq_def case_prod_beta split: result.splits)
      qed
    qed
  qed
qed

text \<open>
  C8. For an accent that is not a key of \<^verbatim>\<open>ACCENT_TO_SES_FILE\<close> the request is
  answered as the same request with the accent \<^verbatim>\<open>en-newest\<close> is: no answer depends
  on the accent being known. The source embedding of every conversion was loaded
  from \<^verbatim>\<open>CHECKPOINT_DIR/base_speakers/ses/en-newest.pth\<close>, and a request that
  succeeds has loaded that file.
\<close>

theorem synthesize_speech_unknown_accent:
  assumes "map_of ACCENT_TO_SES_FILE (req_accent request) = None"
  shows "fst (synthesize_speech CHECKPOINT_DIR request env st) =
           fst (synthesize_speech CHECKPOINT_DIR (request\<lparr>req_accent := ''en-newest''\<rparr>) env st) \<and>
         (\<exists>evs. trace (snd (synthesize_speech CHECKPOINT_DIR request env st)) = trace st @ evs \<and>
            (\<forall>a s t out. Convert a s t out \<in> set evs \<longrightarrow>
               s = Loaded (CHECKPOINT_DIR @ [''base_speakers'', ''ses'', ''en-newest.pth''])) \<and>
            (\<forall>p. Torch_load p \<in> set evs \<longrightarrow>
               p = CHECKPOINT_DIR @ [''base_speakers'', ''ses'', ''en-newest.pth''] \<or>
               (\<exists>row \<in> set (voice_models st).
                  vm_id row = req_voice_id request \<and> p = vm_se_file_path row)) \<and>
            ((\<exists>b. fst (synthesize_speech CHECKPOINT_DIR request env st) = OK b) \<longrightarrow>
               Torch_load (CHECKPOINT_DIR @ [''base_speakers'', ''ses'', ''en-newest.pth''])
                 \<in> set evs))"
proof -
  from assms have src: "source_se_path CHECKPOINT_DIR (req_accent request) =
      CHECKPOINT_DIR @ [''base_speakers'', ''ses'', ''en-newest.pth'']"
    by (simp add: source_se_path_def ses_file_def)
  have "source_se_path CHECKPOINT_DIR ''en-newest'' =
      CHECKPOINT_DIR @ [''base_speakers'', ''ses'', ''en-newest.pth'']"
    by (simp add: source_se_path_def ses_file_def ACCENT_TO_SES_FILE_def)
  with src have eq: "source_se_path CHECKPOINT_DIR (req_accent request) =
      source_se_path CHECKPOINT_DIR ''en-newest''"
    by simp
  have same: "fst (synthesize_speech CHECKPOINT_DIR request env st) =
      fst (synthesize_speech CHECKPOINT_DIR (request\<lparr>req_accent := ''en-newest''\<rparr>) env st)"
  proof (cases "sy_connect env")
    case (Some m)
    then show ?thesis by (simp add: synthesize_speech_def)
  next
    case None
    show ?thesis
    proof (cases "find (\<lambda>row. vm_id row = req_voice_id request) (voice_models st)")
      case no_row: None
      with None show ?thesis by (simp add: synthesize_speech_def)
    next
      case (Some row)
      with None synthesize_try_accent [OF eq, of "vm_se_file_path row" env st]
      show ?thesis
        by (auto simp: synthesize_speech_def split: result.splits)
    qed
  qed
  obtain resp st' where s: "synthesize_speech CHECKPOINT_DIR request env st = (resp, st')"
    by (cases "synthesize_speech CHECKPOINT_DIR request env st")
  from synthesize_speech_source_embedding [OF s] src s
  have "\<exists>evs. trace (snd (synthesize_speech CHECKPOINT_DIR request env st)) = trace st @ evs \<and>
            (\<forall>a s t out. Convert a s t out \<in> set evs \<longrightarrow>
               s = Loaded (CHECKPOINT_DIR @ [''base_speakers'', ''ses'', ''en-newest.pth''])) \<and>
            (\<forall>p. Torch_load p \<in> set evs \<longrightarrow>
               p = CHECKPOINT_DIR @ [''base_speakers'', ''ses'', ''en-newest.pth''] \<or>
               (\<exists>row \<in> set (voice_models st).
                  vm_id row = req_voice_id request \<and> p = vm_se_file_path row)) \<and>
            ((\<exists>b. fst (synthesize_speech CHECKPOINT_DIR request env st) = OK b) \<longrightarrow>
               Torch_load (CHECKPOINT_DIR @ [''base_speakers'', ''ses'', ''en-newest.pth''])
                 \<in> set evs)"
    by simp blast
  with same show ?thesis by (rule conjI)
qed

theorem synthesize_speech_unknown_accent_witness:
  "map_of ACCENT_TO_SES_FILE (req_accent klingon_request) = None \<and>
   fst (synthesize_speech [''checkpoints_v2''] klingon_request good_synth_env
          (voice_uploaded service_fs_v2)) =
     OK (Synthesized ''77aa'' ''0b5c'' ''nuqneH'' [''audio_files'', ''77aa.wav'']
           ''Speech synthesized successfully'') \<and>
   fst (synthesize_speech [''checkpoints_v2''] (klingon_request\<lparr>req_accent := ''en-newest''\<rparr>)
          good_synth_env (voice_uploaded service_fs_v2)) =
     OK (Synthesized ''77aa'' ''0b5c'' ''nuqneH'' [''audio_files'', ''77aa.wav'']
           ''Speech synthesized successfully'') \<and>
   (\<exists>evs. trace (snd (synthesize_speech [''checkpoints_v2''] klingon_request good_synth_env
                        (voice_uploaded service_fs_v2))) =
            trace (voice_uploaded service_fs_v2) @ evs \<and>
          Torch_load [''checkpoints_v2'', ''base_speakers'', ''ses'', ''en-newest.pth'']
            \<in> set evs)"
proof -
  let ?r = "synthesize_speech [''checkpoints_v2''] klingon_request good_synth_env
      (voice_uploaded service_fs_v2)"
  have key: "map_of ACCENT_TO_SES_FILE (req_accent klingon_request) = None"
    by code_simp
  have ok: "fst ?r = OK (Synthesized ''77aa'' ''0b5c'' ''nuqneH''
       [''audio_files'', ''77aa.wav''] ''Speech synthesized successfully'')"
    by code_simp
  from synthesize_speech_unknown_accent [OF key, of "[''checkpoints_v2'']" good_synth_env
    "voice_uploaded service_fs_v2"] ok
  have "fst (synthesize_speech [''checkpoints_v2''] (klingon_request\<lparr>req_accent := ''en-newest''\<rparr>)
          good_synth_env (voice_uploaded service_fs_v2)) =
     OK (Synthesized ''77aa'' ''0b5c'' ''nuqneH'' [''audio_files'', ''77aa.wav'']
           ''Speech synthesized successfully'')"
    and "\<exists>evs. trace (snd ?r) = trace (voice_uploaded service_fs_v2) @ evs \<and>
          Torch_load [''checkpoints_v2'', ''base_speakers'', ''ses'', ''en-newest.pth'']
            \<in> set evs"
    by auto
  with key ok show ?thesis by simp
qed

end
